theory Spec2Isabelle
  imports Complex_Main "HOL-Library.Multiset"
begin

section \<open>Dates, timestamps and Python errors\<close>

text \<open>
  The notebooks work on pandas timestamps and Python dates. A date is modelled by its
  proleptic Gregorian ordinal (what \<^verbatim>\<open>date.toordinal()\<close> returns: day 1 is
  0001-01-01, a Monday), the timestamp of a price bar by the number of whole microseconds
  since midnight of ordinal 0, and a timedelta by a number of microseconds. Uncaught
  Python exceptions are the left summand of a result.
\<close>

datatype py_error =
  IndexError | KeyError | ValueError | UnboundLocalError | AttributeError | OutOfBoundsDatetime

type_synonym date = int
type_synonym timestamp = int
type_synonym timedelta = int

definition us_per_minute :: int where
  "us_per_minute = 60000000"

definition us_per_day :: int where
  "us_per_day = 86400000000"

text \<open>\<^verbatim>\<open>t.date()\<close>, \<^verbatim>\<open>t.time()\<close> and \<^verbatim>\<open>d.weekday()\<close> (Monday is 0).\<close>

definition date_of :: "timestamp \<Rightarrow> date" where
  "date_of t = t div us_per_day"

definition time_of :: "timestamp \<Rightarrow> int" where
  "time_of t = t mod us_per_day"

definition weekday :: "date \<Rightarrow> int" where
  "weekday d = (d + 6) mod 7"

text \<open>
  \<^verbatim>\<open>timedelta.days\<close>: a timedelta is normalised so that its seconds and microseconds are
  non-negative, hence \<^verbatim>\<open>days\<close> is the floor of the difference in days.
\<close>

definition days :: "timedelta \<Rightarrow> int" where
  "days td = td div us_per_day"

section \<open>Commitment-of-Traders notebook: the preceding Tuesday\<close>

text \<open>
  This notebook computes on pandas timestamps themselves. A pandas timestamp is a 64-bit
  count of nanoseconds since 1970-01-01 00:00 (the day of ordinal 719163); the least
  64-bit value stands for the missing timestamp \<^verbatim>\<open>NaT\<close>. Adding or subtracting days
  raises \<^verbatim>\<open>OutOfBoundsDatetime\<close> when the result leaves the 64-bit range; \<^verbatim>\<open>NaT\<close> stays
  \<^verbatim>\<open>NaT\<close>, and asking \<^verbatim>\<open>NaT\<close> for its date raises \<^verbatim>\<open>ValueError\<close>.
\<close>

type_synonym pd_timestamp = int

definition ns_per_minute :: int where
  "ns_per_minute = 60000000000"

definition ns_per_day :: int where
  "ns_per_day = 86400000000000"

definition NaT :: pd_timestamp where
  "NaT = - (2 ^ 63)"

definition Timestamp_max :: pd_timestamp where
  "Timestamp_max = 2 ^ 63 - 1"

definition representable :: "int \<Rightarrow> bool" where
  "representable v = (NaT < v \<and> v \<le> Timestamp_max)"

definition Timestamp_ordinal :: "pd_timestamp \<Rightarrow> date" where
  "Timestamp_ordinal ts = 719163 + ts div ns_per_day"

definition Timestamp_date :: "pd_timestamp \<Rightarrow> py_error + date" where
  "Timestamp_date ts = (if ts = NaT then Inl ValueError else Inr (Timestamp_ordinal ts))"

definition Timestamp_add_days :: "pd_timestamp \<Rightarrow> int \<Rightarrow> py_error + pd_timestamp" where
  "Timestamp_add_days ts n =
     (if ts = NaT then Inr NaT
      else if ts + n * ns_per_day < NaT then Inl OutOfBoundsDatetime
      else if Timestamp_max < ts + n * ns_per_day then Inl OutOfBoundsDatetime
      else Inr (ts + n * ns_per_day))"

text \<open>
  \<^verbatim>\<open>date_of_preceding_tuesday\<close>: a \<^verbatim>\<open>match\<close> on the weekday binds
  \<^verbatim>\<open>days_since_preceding_tuesday\<close>; were no case to match, the name would be unbound
  at its use. The days are subtracted from the timestamp, and the date of the result is
  returned.
\<close>

definition days_since_preceding_tuesday :: "int \<Rightarrow> int option" where
  "days_since_preceding_tuesday day_of_week =
     (if day_of_week = 0 then Some 6
      else if day_of_week = 1 then Some 7
      else if day_of_week = 2 then Some 8
      else if day_of_week = 3 then Some 9
      else if day_of_week = 4 then Some 10
      else if day_of_week = 5 then Some 11
      else if day_of_week = 6 then Some 12
      else None)"

definition date_of_preceding_tuesday :: "pd_timestamp \<Rightarrow> py_error + date" where
  "date_of_preceding_tuesday a_date =
     (case Timestamp_date a_date of
        Inl e \<Rightarrow> Inl e
      | Inr today \<Rightarrow>
         (case days_since_preceding_tuesday (weekday today) of
            None \<Rightarrow> Inl UnboundLocalError
          | Some n \<Rightarrow>
             (case Timestamp_add_days a_date (- n) of
                Inl e \<Rightarrow> Inl e
              | Inr preceding_tuesday_date \<Rightarrow> Timestamp_date preceding_tuesday_date)))"

text \<open>\<^verbatim>\<open>report_observation_date + DateOffset(days=6)\<close> and \<^verbatim>\<open>DateOffset(days=12)\<close>.\<close>

definition calc_begin_cot_apply_date_range :: "pd_timestamp \<Rightarrow> py_error + pd_timestamp" where
  "calc_begin_cot_apply_date_range report_observation_date =
     Timestamp_add_days report_observation_date 6"

definition calc_end_cot_apply_date_range :: "pd_timestamp \<Rightarrow> py_error + pd_timestamp" where
  "calc_end_cot_apply_date_range report_observation_date =
     Timestamp_add_days report_observation_date 12"

section \<open>Price-bar dataframes\<close>

text \<open>
  A dataframe is the list of its rows, in row order. A contract file read by
  \<^verbatim>\<open>convert_csv_to_df\<close> has the \<^verbatim>\<open>DateTime\<close> index and a \<^verbatim>\<open>Volume\<close> column; a frame
  that carries more columns is a record extension of \<open>bar\<close>. The volumes are real
  numbers here: rounding and missing volumes are outside the model.
\<close>

record bar =
  DateTime :: timestamp
  Volume :: real

text \<open>\<^verbatim>\<open>Index.unique()\<close>: the distinct values in order of first appearance.\<close>

fun unique :: "'a list \<Rightarrow> 'a list" where
  "unique [] = []"
| "unique (x # xs) = x # unique (filter (\<lambda>y. y \<noteq> x) xs)"

definition get_unique_trading_days :: "'a bar_scheme list \<Rightarrow> date list" where
  "get_unique_trading_days df = unique (map (\<lambda>r. date_of (DateTime r)) df)"

text \<open>
  \<^verbatim>\<open>df.resample('1T').sum()\<close>: one row per minute from the minute of the earliest
  timestamp to the minute of the latest one, each holding the column sums of the rows
  falling into that minute (zero for a gap); an empty frame stays empty. How the columns
  other than \<^verbatim>\<open>Volume\<close> are summed is the parameter \<open>sum_others\<close>. This is the
  frame of sums when \<^verbatim>\<open>.sum()\<close> keeps the \<^verbatim>\<open>Volume\<close> column; when it does so is
  the matter of the column types, below.
\<close>

definition minute_floor :: "timestamp \<Rightarrow> timestamp" where
  "minute_floor t = (t div us_per_minute) * us_per_minute"

definition resample_bins :: "timestamp list \<Rightarrow> timestamp list" where
  "resample_bins ts =
     (case ts of
        [] \<Rightarrow> []
      | t # rest \<Rightarrow>
          map (\<lambda>k. k * us_per_minute)
            [fold min rest t div us_per_minute .. fold max rest t div us_per_minute])"

definition resample_1T_sum :: "('a list \<Rightarrow> 'b) \<Rightarrow> 'a bar_scheme list \<Rightarrow> 'b bar_scheme list" where
  "resample_1T_sum sum_others df =
     map (\<lambda>b. bar.extend
                 \<lparr>DateTime = b,
                  Volume = sum_list (map Volume (filter (\<lambda>r. minute_floor (DateTime r) = b) df))\<rparr>
                 (sum_others (map bar.more (filter (\<lambda>r. minute_floor (DateTime r) = b) df))))
       (resample_bins (map DateTime df))"

text \<open>\<^verbatim>\<open>df[["Volume"]]\<close>: the frame with the index and the \<^verbatim>\<open>Volume\<close> column only.\<close>

definition select_Volume :: "'a bar_scheme list \<Rightarrow> bar list" where
  "select_Volume df = map bar.truncate df"

text \<open>
  \<^verbatim>\<open>df.groupby(lambda x: x.time()).sum()\<close>: one row per time of day, in ascending order,
  with the sum of \<^verbatim>\<open>Volume\<close> over the rows at that time of day. The result is indexed by
  the time of day.
\<close>

definition groupby_time_sum :: "('r \<Rightarrow> timestamp) \<Rightarrow> ('r \<Rightarrow> real) \<Rightarrow> 'r list \<Rightarrow> (int \<times> real) list" where
  "groupby_time_sum index col df =
     map (\<lambda>k. (k, sum_list (map col (filter (\<lambda>r. time_of (index r) = k) df))))
       (sort (unique (map (\<lambda>r. time_of (index r)) df)))"

text \<open>
  \<^verbatim>\<open>resample_volume_by_minute\<close> as the split-by-cutoff-date notebook defines it:
  \<^verbatim>\<open>df.resample('1T').sum()[["Volume"]]\<close>, then the group-by.
\<close>

definition resample_volume_by_minute_cutoff ::
    "('a list \<Rightarrow> 'b) \<Rightarrow> 'a bar_scheme list \<Rightarrow> (int \<times> real) list" where
  "resample_volume_by_minute_cutoff sum_others df =
     (let df_temp = select_Volume (resample_1T_sum sum_others df)
      in groupby_time_sum DateTime Volume df_temp)"

text \<open>
  \<^verbatim>\<open>resample_volume_by_minute\<close> as the split-by-days-to-expiration notebook defines it:
  \<^verbatim>\<open>df[['Volume']].resample('1T').sum()[["Volume"]]\<close>, then the group-by.
\<close>

definition resample_volume_by_minute_dte :: "'a bar_scheme list \<Rightarrow> (int \<times> real) list" where
  "resample_volume_by_minute_dte df =
     (let df_temp = select_Volume (resample_1T_sum (\<lambda>_. ()) (select_Volume df))
      in groupby_time_sum DateTime Volume df_temp)"

text \<open>
  The column types. A column read from a contract file is numeric. The notebooks build
  their master frame by concatenating the contract frames onto an empty frame, whose
  columns have the type \<^verbatim>\<open>object\<close>, and so has a column of the result that the empty
  frame had; a column that only the contract frames have, such as
  \<^verbatim>\<open>Days To Contract Expiration\<close>, stays numeric.

  \<^verbatim>\<open>resample('1T').sum()\<close> returns a frame without rows as it is. On a frame with rows
  it sums the numeric columns and drops the others when there is a numeric column, and
  sums every column when there is none. Selecting a dropped column by
  \<^verbatim>\<open>[["Volume"]]\<close> raises \<^verbatim>\<open>KeyError\<close>.
\<close>

datatype dtype = Numeric | Object

record 'a typed_frame =
  Volume_dtype :: dtype
  other_dtypes :: "dtype list"
  bars :: "'a bar_scheme list"

definition sum_keeps_Volume :: "dtype \<Rightarrow> dtype list \<Rightarrow> bool" where
  "sum_keeps_Volume volume_dtype others = (volume_dtype = Numeric \<or> Numeric \<notin> set others)"

text \<open>
  \<^verbatim>\<open>resample_volume_by_minute\<close> of the split-by-cutoff-date notebook on a frame with its
  column types: the sum is taken over the frame with all its columns.
\<close>

definition resample_volume_by_minute_cutoff_typed ::
    "('a list \<Rightarrow> 'b) \<Rightarrow> 'a typed_frame \<Rightarrow> py_error + (int \<times> real) list" where
  "resample_volume_by_minute_cutoff_typed sum_others df =
     (if bars df = [] \<or> sum_keeps_Volume (Volume_dtype df) (other_dtypes df)
      then Inr (resample_volume_by_minute_cutoff sum_others (bars df))
      else Inl KeyError)"

text \<open>
  \<^verbatim>\<open>resample_volume_by_minute\<close> of the split-by-days-to-expiration notebook on a frame
  with its column types: the sum is taken over \<^verbatim>\<open>df[['Volume']]\<close>, a frame without
  other columns.
\<close>

definition resample_volume_by_minute_dte_typed ::
    "'a typed_frame \<Rightarrow> py_error + (int \<times> real) list" where
  "resample_volume_by_minute_dte_typed df =
     (if bars df = [] \<or> sum_keeps_Volume (Volume_dtype df) []
      then Inr (resample_volume_by_minute_dte (bars df))
      else Inl KeyError)"

section \<open>Parsing the cutoff date\<close>

text \<open>
  \<^verbatim>\<open>datetime.strptime(s, '%Y-%m-%d')\<close>: a year of exactly four digits, a month written
  with one or two digits (1 to 12), a day written with one or two digits or a space and a
  digit (1 to 31), separated by hyphens, with nothing before or after; then the date must
  exist in the calendar. Anything else raises \<^verbatim>\<open>ValueError\<close>. The result is the timestamp
  of that day's midnight.
\<close>

fun split_on :: "char \<Rightarrow> string \<Rightarrow> string list" where
  "split_on c [] = [[]]"
| "split_on c (x # xs) =
     (if x = c then [] # split_on c xs
      else (case split_on c xs of [] \<Rightarrow> [[x]] | w # ws \<Rightarrow> (x # w) # ws))"

definition is_digit :: "char \<Rightarrow> bool" where
  "is_digit c = (48 \<le> (of_char c :: nat) \<and> (of_char c :: nat) \<le> 57)"

definition digits_value :: "string \<Rightarrow> int" where
  "digits_value s = fold (\<lambda>c n. 10 * n + (int (of_char c) - 48)) s 0"

definition is_number :: "string \<Rightarrow> bool" where
  "is_number s = (s \<noteq> [] \<and> list_all is_digit s)"

definition is_leap :: "int \<Rightarrow> bool" where
  "is_leap y = (if y mod 400 = 0 then True else if y mod 100 = 0 then False else y mod 4 = 0)"

definition days_in_month :: "int \<Rightarrow> int \<Rightarrow> int" where
  "days_in_month y m =
     (if m = 2 then (if is_leap y then 29 else 28)
      else if m = 4 \<or> m = 6 \<or> m = 9 \<or> m = 11 then 30 else 31)"

definition days_before_year :: "int \<Rightarrow> int" where
  "days_before_year y = (y - 1) * 365 + (y - 1) div 4 - (y - 1) div 100 + (y - 1) div 400"

definition days_before_month :: "int \<Rightarrow> int \<Rightarrow> int" where
  "days_before_month y m = sum_list (map (days_in_month y) [1 .. m - 1])"

definition ymd2ord :: "int \<Rightarrow> int \<Rightarrow> int \<Rightarrow> date" where
  "ymd2ord y m d = days_before_year y + days_before_month y m + d"

definition month_field :: "string \<Rightarrow> int option" where
  "month_field s =
     (if is_number s \<and> length s \<le> 2 \<and> 1 \<le> digits_value s \<and> digits_value s \<le> 12
      then Some (digits_value s) else None)"

definition day_field :: "string \<Rightarrow> int option" where
  "day_field s =
     (if is_number s \<and> length s \<le> 2 \<and> 1 \<le> digits_value s \<and> digits_value s \<le> 31
      then Some (digits_value s)
      else (case s of
              [sp, c] \<Rightarrow> (if sp = CHR '' '' \<and> is_digit c \<and> 1 \<le> digits_value [c]
                          then Some (digits_value [c]) else None)
            | _ \<Rightarrow> None))"

definition strptime_Ymd :: "string \<Rightarrow> py_error + timestamp" where
  "strptime_Ymd s =
     (case split_on CHR ''-'' s of
        [ys, ms, ds] \<Rightarrow>
          (if is_number ys \<and> length ys = 4 then
             (case month_field ms of
                None \<Rightarrow> Inl ValueError
              | Some m \<Rightarrow>
                 (case day_field ds of
                    None \<Rightarrow> Inl ValueError
                  | Some d \<Rightarrow>
                     (if digits_value ys < 1 then Inl ValueError
                      else if days_in_month (digits_value ys) m < d then Inl ValueError
                      else Inr (ymd2ord (digits_value ys) m d * us_per_day))))
           else Inl ValueError)
      | _ \<Rightarrow> Inl ValueError)"

section \<open>The threshold splits\<close>

text \<open>
  \<^verbatim>\<open>split_dataframe_by_date(df, split_date)\<close> of the split-by-cutoff-date notebook. Its body
  filters the notebook's global \<^verbatim>\<open>master_ungrouped_df\<close>, which is therefore an explicit
  argument here, next to the parameter \<open>df\<close>. The cutoff is parsed once for each of the
  two filters.
\<close>

definition split_dataframe_by_date ::
    "'a bar_scheme list \<Rightarrow> 'b bar_scheme list \<Rightarrow> string
      \<Rightarrow> py_error + ('a bar_scheme list \<times> 'a bar_scheme list)" where
  "split_dataframe_by_date master_ungrouped_df df split_date =
     (case strptime_Ymd split_date of
        Inl e \<Rightarrow> Inl e
      | Inr t1 \<Rightarrow>
         (let before_date_df = filter (\<lambda>r. date_of (DateTime r) < date_of t1) master_ungrouped_df
          in case strptime_Ymd split_date of
               Inl e \<Rightarrow> Inl e
             | Inr t2 \<Rightarrow>
                (let after_date_df =
                       filter (\<lambda>r. date_of (DateTime r) \<ge> date_of t2) master_ungrouped_df
                 in Inr (before_date_df, after_date_df))))"

text \<open>
  The days-to-expiration notebook: a contract frame with the added
  \<^verbatim>\<open>Days To Contract Expiration\<close> column, and \<^verbatim>\<open>split_dataframe_by_dte\<close> with its float
  threshold.
\<close>

record dte_bar = bar +
  Days_To_Contract_Expiration :: int

definition split_dataframe_by_dte ::
    "'a dte_bar_scheme list \<Rightarrow> real \<Rightarrow> 'a dte_bar_scheme list \<times> 'a dte_bar_scheme list" where
  "split_dataframe_by_dte a_df dte_threshold =
     (let less_than_or_equal_dte_threshold_df =
            filter (\<lambda>r. real_of_int (Days_To_Contract_Expiration r) \<le> dte_threshold) a_df;
          greater_than_dte_threshold_df =
            filter (\<lambda>r. real_of_int (Days_To_Contract_Expiration r) > dte_threshold) a_df
      in (less_than_or_equal_dte_threshold_df, greater_than_dte_threshold_df))"

text \<open>
  The Commitment-of-Traders frame: the report date and the column
  \<^verbatim>\<open>Producer/Merchant/Processor/User Shorts - % of OI\<close>, a float column whose cells are
  numbers or missing (\<^verbatim>\<open>NaN\<close>, here \<open>None\<close>); the median passed in is such a float too.
  A comparison with \<^verbatim>\<open>NaN\<close> on either side is false.
  \<^verbatim>\<open>filter_and_split_cot_shorts_around_median\<close> returns the named tuple
  \<^verbatim>\<open>(above_median_df, below_median_df)\<close>.
\<close>

record cot_row =
  Date :: pd_timestamp
  PMPU_Shorts_Pct_of_OI :: "real option"

definition float_ge :: "real option \<Rightarrow> real option \<Rightarrow> bool" where
  "float_ge a b = (case (a, b) of (Some x, Some y) \<Rightarrow> y \<le> x | _ \<Rightarrow> False)"

definition float_less :: "real option \<Rightarrow> real option \<Rightarrow> bool" where
  "float_less a b = (case (a, b) of (Some x, Some y) \<Rightarrow> x < y | _ \<Rightarrow> False)"

definition filter_and_split_cot_shorts_around_median ::
    "'a cot_row_scheme list \<Rightarrow> real option
      \<Rightarrow> 'a cot_row_scheme list \<times> 'a cot_row_scheme list" where
  "filter_and_split_cot_shorts_around_median cot_df median_pmpu_shorts_percentage =
     (let cot_pmpu_shorts_above_median_df =
            filter (\<lambda>r. float_ge (PMPU_Shorts_Pct_of_OI r) median_pmpu_shorts_percentage) cot_df;
          cot_pmpu_shorts_below_median_df =
            filter (\<lambda>r. float_less (PMPU_Shorts_Pct_of_OI r) median_pmpu_shorts_percentage) cot_df
      in (cot_pmpu_shorts_above_median_df, cot_pmpu_shorts_below_median_df))"

section \<open>Days to expiration\<close>

text \<open>
  \<^verbatim>\<open>df.loc['YYYY-MM-DD']\<close> on a frame with a datetime index. When every timestamp of
  the index is at midnight (an index without rows included) the index has the resolution
  of the string, and the string is looked up as a label: no row with that date raises
  \<^verbatim>\<open>KeyError\<close>, exactly one row is returned as a \<^verbatim>\<open>Series\<close>, several rows as a frame.
  Otherwise the string selects by the day: the rows of that day, in row order; when the
  index is in ascending order and the day lies before its first or after its last
  timestamp, the lookup raises \<^verbatim>\<open>KeyError\<close>; a day without rows inside the range, or in
  an unordered index, gives the empty frame.
  \<^verbatim>\<open>xs[-1]\<close> and \<^verbatim>\<open>.iloc[-1]\<close> raise \<^verbatim>\<open>IndexError\<close> on an empty sequence, as does
  \<^verbatim>\<open>.iloc[0]\<close>.
\<close>

datatype 'a loc_result = Series_row 'a | Frame_rows "'a list"

definition day_resolution :: "'a bar_scheme list \<Rightarrow> bool" where
  "day_resolution df = list_all (\<lambda>r. time_of (DateTime r) = 0) df"

definition loc_date :: "date \<Rightarrow> 'a bar_scheme list \<Rightarrow> py_error + 'a bar_scheme loc_result" where
  "loc_date d df =
     (let rows = filter (\<lambda>r. date_of (DateTime r) = d) df
      in if day_resolution df
         then (case rows of
                 [] \<Rightarrow> Inl KeyError
               | [row] \<Rightarrow> Inr (Series_row row)
               | _ \<Rightarrow> Inr (Frame_rows rows))
         else if sorted (map DateTime df)
                 \<and> (d < date_of (DateTime (hd df)) \<or> date_of (DateTime (last df)) < d)
         then Inl KeyError
         else Inr (Frame_rows rows))"

definition iloc_last :: "'a list \<Rightarrow> py_error + 'a" where
  "iloc_last xs = (if xs = [] then Inl IndexError else Inr (last xs))"

definition iloc_first :: "'a list \<Rightarrow> py_error + 'a" where
  "iloc_first xs = (case xs of [] \<Rightarrow> Inl IndexError | x # _ \<Rightarrow> Inr x)"

definition calculate_dte_for_row :: "'a bar_scheme \<Rightarrow> timestamp \<Rightarrow> int" where
  "calculate_dte_for_row row last_unique_trading_minute_in_contract =
     (let this_row_date = DateTime row;
          time_difference = last_unique_trading_minute_in_contract - this_row_date
      in days time_difference)"

text \<open>
  \<^verbatim>\<open>add_dte_column_to_df\<close>: the last of the sorted unique trading days, the rows of that
  day, and of these \<^verbatim>\<open>.iloc[-1].name\<close>, the timestamp of the last one. When the lookup
  gave a \<^verbatim>\<open>Series\<close>, \<^verbatim>\<open>.iloc[-1]\<close> is its last cell, a number, and \<^verbatim>\<open>.name\<close> raises
  \<^verbatim>\<open>AttributeError\<close>.
\<close>

definition add_dte_column_to_df :: "bar list \<Rightarrow> py_error + dte_bar list" where
  "add_dte_column_to_df a_contract_df =
     (let unique_trading_days = sort (get_unique_trading_days a_contract_df)
      in case iloc_last unique_trading_days of
           Inl e \<Rightarrow> Inl e
         | Inr last_unique_trading_day_in_contract \<Rightarrow>
            (case loc_date last_unique_trading_day_in_contract a_contract_df of
               Inl e \<Rightarrow> Inl e
             | Inr (Series_row row) \<Rightarrow> Inl AttributeError
             | Inr (Frame_rows rows) \<Rightarrow>
                (case iloc_last rows of
                   Inl e \<Rightarrow> Inl e
                 | Inr last_row \<Rightarrow>
                    (let last_unique_trading_minute_in_contract = DateTime last_row
                     in Inr (map (\<lambda>r. bar.extend r
                                    (dte_bar.fields
                                       (calculate_dte_for_row r
                                          last_unique_trading_minute_in_contract)))
                              a_contract_df)))))"

text \<open>
  Two bars of one contract with their days to expiration, as in the master frame of the
  split-by-days-to-expiration notebook.
\<close>

definition example_dte_bars :: "dte_bar list" where
  "example_dte_bars =
     [\<lparr>DateTime = 735780 * us_per_day + 570 * us_per_minute, Volume = 12,
       Days_To_Contract_Expiration = 0\<rparr>,
      \<lparr>DateTime = 735780 * us_per_day + 571 * us_per_minute, Volume = 3,
       Days_To_Contract_Expiration = 0\<rparr>]"

section \<open>Settlement and open correlation\<close>

text \<open>
  The settlement frame (\<^verbatim>\<open>Date\<close>, \<^verbatim>\<open>Price Difference b/w Open And Prior Day Settlement\<close>,
  \<^verbatim>\<open>Symbol\<close>) and the enriched intraday frame, of which the columns the functions read are
  named. A function that returns Python's \<^verbatim>\<open>None\<close> returns \<open>None\<close>.
\<close>

record settlement_row =
  Settlement_Date :: timestamp
  Price_Difference_Open_Prior_Settlement :: real
  Settlement_Symbol :: string

record intraday_bar = bar +
  Symbol :: string
  Open_Minutes_Offset :: int
  Price_Change_From_Intraday_Open :: real

definition get_settlement_price_change_for_date ::
    "date \<Rightarrow> 'a settlement_row_scheme list \<Rightarrow> py_error + real option" where
  "get_settlement_price_change_for_date a_date a_settlement_df =
     (let rows_with_date = filter (\<lambda>r. date_of (Settlement_Date r) = a_date) a_settlement_df
      in if rows_with_date = [] then Inr None
         else (case iloc_first rows_with_date of
                 Inl e \<Rightarrow> Inl e
               | Inr row \<Rightarrow> Inr (Some (Price_Difference_Open_Prior_Settlement row))))"

definition get_intraday_price_change_at_minute_sixty ::
    "date \<Rightarrow> 'a intraday_bar_scheme list \<Rightarrow> py_error + real option" where
  "get_intraday_price_change_at_minute_sixty a_date intraday_df =
     (let rows_with_date = filter (\<lambda>r. date_of (DateTime r) = a_date) intraday_df
      in if rows_with_date = [] then Inr None
         else (let t_sixty_row = filter (\<lambda>r. Open_Minutes_Offset r = 59) rows_with_date
               in if t_sixty_row = [] then Inr None
                  else (case iloc_first t_sixty_row of
                          Inl e \<Rightarrow> Inl e
                        | Inr row \<Rightarrow> Inr (Some (Price_Change_From_Intraday_Open row)))))"

text \<open>
  The body of the loop over the dates of one symbol in the correlation cell: a date for
  which either lookup returned \<^verbatim>\<open>None\<close> is skipped, any other contributes one entry
  (date, settlement difference, change at minute sixty).
\<close>

fun prices_for_dates ::
    "date list \<Rightarrow> 'a settlement_row_scheme list \<Rightarrow> 'b intraday_bar_scheme list
      \<Rightarrow> py_error + (date \<times> real \<times> real) list" where
  "prices_for_dates [] a_settlement_df intraday_df = Inr []"
| "prices_for_dates (a_date # dates) a_settlement_df intraday_df =
     (case get_settlement_price_change_for_date a_date a_settlement_df of
        Inl e \<Rightarrow> Inl e
      | Inr settlement_price_diff \<Rightarrow>
         (case get_intraday_price_change_at_minute_sixty a_date intraday_df of
            Inl e \<Rightarrow> Inl e
          | Inr intraday_cfo \<Rightarrow>
             (case prices_for_dates dates a_settlement_df intraday_df of
                Inl e \<Rightarrow> Inl e
              | Inr rest \<Rightarrow>
                 (case (settlement_price_diff, intraday_cfo) of
                    (Some diff, Some cfo) \<Rightarrow> Inr ((a_date, diff, cfo) # rest)
                  | _ \<Rightarrow> Inr rest))))"

section \<open>Average volume by minute\<close>

text \<open>
  Dividing a float column or a float scalar by a Python integer is numpy's true division:
  a zero divisor gives an infinity or not-a-number, never an exception.
\<close>

datatype npfloat = Finite real | PosInf | NegInf | NaN

definition np_true_divide :: "real \<Rightarrow> nat \<Rightarrow> npfloat" where
  "np_true_divide x n =
     (if n = 0 then (if 0 < x then PosInf else if x < 0 then NegInf else NaN)
      else Finite (x / real n))"

text \<open>
  \<^verbatim>\<open>initialize_df_grouped_by_minute\<close>: a frame without columns whose index holds the 1440
  minutes of a day.
\<close>

definition initialize_df_grouped_by_minute :: "int list" where
  "initialize_df_grouped_by_minute = map (\<lambda>k. k * us_per_minute) [0 .. 1439]"

text \<open>
  \<^verbatim>\<open>get_master_avg_daily_nominal_df\<close> of the split-by-cutoff-date notebook. Each by-minute
  frame has its \<^verbatim>\<open>Volume\<close> column renamed to \<^verbatim>\<open>Total Volume ...\<close> and gets the column
  \<^verbatim>\<open>Average Volume ...\<close>; \<^verbatim>\<open>pd.concat(..., axis=1)\<close> then aligns the three frames on the
  union of their indexes, a cell being missing (\<open>None\<close>) where a frame has no row for
  that time of day.
\<close>

record nominal_row =
  Total_Volume_Before :: "real option"
  Average_Volume_Before :: "npfloat option"
  Total_Volume_After :: "real option"
  Average_Volume_After :: "npfloat option"

definition get_master_avg_daily_nominal_df ::
    "(int \<times> real) list \<Rightarrow> (int \<times> real) list \<Rightarrow> nat \<Rightarrow> nat \<Rightarrow> (int \<times> nominal_row) list" where
  "get_master_avg_daily_nominal_df before_date_by_minute_df after_date_by_minute_df
      num_before_date_unique_trading_days num_after_date_unique_trading_days =
     (let master_avg_daily_nominal_df = initialize_df_grouped_by_minute;
          before_df = map (\<lambda>(k, v). (k, (v, np_true_divide v num_before_date_unique_trading_days)))
                        before_date_by_minute_df;
          after_df = map (\<lambda>(k, v). (k, (v, np_true_divide v num_after_date_unique_trading_days)))
                        after_date_by_minute_df
      in map (\<lambda>k. (k, \<lparr>Total_Volume_Before = map_option fst (map_of before_df k),
                         Average_Volume_Before = map_option snd (map_of before_df k),
                         Total_Volume_After = map_option fst (map_of after_df k),
                         Average_Volume_After = map_option snd (map_of after_df k)\<rparr>))
           (unique (master_avg_daily_nominal_df @ map fst before_df @ map fst after_df)))"

text \<open>
  The normalised side works on the frame that carries, beside \<^verbatim>\<open>Volume\<close>, the column
  \<^verbatim>\<open>Volume Normalized Intraday\<close>, which the notebook fills day by day with the output
  of the library's scaler; here the column is given.
\<close>

record norm_bar = bar +
  Volume_Normalized_Intraday :: real

definition calculate_normalized_vol_by_minute :: "real \<Rightarrow> nat \<Rightarrow> npfloat" where
  "calculate_normalized_vol_by_minute intraday_summed num_unique_trading_days =
     np_true_divide intraday_summed num_unique_trading_days"

text \<open>
  \<^verbatim>\<open>group_by_minute_sum_normalized_volumes\<close>: group by the time of day and sum, which gives
  the columns \<^verbatim>\<open>Volume\<close> and \<^verbatim>\<open>Volume Normalized Summed\<close>, then add the column
  \<^verbatim>\<open>Daily Avg Volume Normalized\<close> row by row.
\<close>

record normalized_minute_row =
  Volume_Summed :: real
  Volume_Normalized_Summed :: real
  Daily_Avg_Volume_Normalized :: npfloat

definition group_by_minute_sum_normalized_volumes ::
    "'a norm_bar_scheme list \<Rightarrow> nat \<Rightarrow> (int \<times> normalized_minute_row) list" where
  "group_by_minute_sum_normalized_volumes df_intraday_normalized num_unique_trading_days =
     (let volume_summed = groupby_time_sum DateTime Volume df_intraday_normalized;
          normalized_summed =
            groupby_time_sum DateTime Volume_Normalized_Intraday df_intraday_normalized
      in map2 (\<lambda>(k, v) (_, s).
                 (k, \<lparr>Volume_Summed = v, Volume_Normalized_Summed = s,
                      Daily_Avg_Volume_Normalized =
                        calculate_normalized_vol_by_minute s num_unique_trading_days\<rparr>))
           volume_summed normalized_summed)"

text \<open>
  A small segment before the cutoff (two trading days), one after it, and the first with
  a column of intraday-normalised volumes.
\<close>

definition example_before_date_df :: "bar list" where
  "example_before_date_df =
     [\<lparr>DateTime = 735780 * us_per_day + 570 * us_per_minute, Volume = 12\<rparr>,
      \<lparr>DateTime = 735781 * us_per_day + 570 * us_per_minute, Volume = 6\<rparr>,
      \<lparr>DateTime = 735781 * us_per_day + 571 * us_per_minute, Volume = 2\<rparr>]"

definition example_after_date_df :: "bar list" where
  "example_after_date_df =
     [\<lparr>DateTime = 735782 * us_per_day + 570 * us_per_minute, Volume = 4\<rparr>]"

definition example_intraday_normalized :: "norm_bar list" where
  "example_intraday_normalized =
     [\<lparr>DateTime = 735780 * us_per_day + 570 * us_per_minute, Volume = 12,
       Volume_Normalized_Intraday = 0\<rparr>,
      \<lparr>DateTime = 735781 * us_per_day + 570 * us_per_minute, Volume = 6,
       Volume_Normalized_Intraday = 1\<rparr>,
      \<lparr>DateTime = 735781 * us_per_day + 571 * us_per_minute, Volume = 2,
       Volume_Normalized_Intraday = 0\<rparr>]"

section \<open>The shell scripts\<close>

text \<open>
  The scripts act on the file system below the current directory. It is modelled as the
  list of its entries, each a path relative to the current directory (the list of its
  components) with either the content of a regular file or the mark of a directory. The
  entries inside a directory \<open>d\<close> are the paths that begin with \<open>d\<close>.
\<close>

type_synonym path = "string list"

datatype entry = File string | Directory

type_synonym filesystem = "(path \<times> entry) list"

datatype sh_error = NoMatchesFound

definition ends_with :: "string \<Rightarrow> string \<Rightarrow> bool" where
  "ends_with sfx s = (length sfx \<le> length s \<and> drop (length s - length sfx) s = sfx)"

definition hidden :: "string \<Rightarrow> bool" where
  "hidden name = (case name of [] \<Rightarrow> False | c # _ \<Rightarrow> c = CHR ''.'')"

text \<open>
  The glob \<^verbatim>\<open>*.txt\<close> of the rename script: the entries of the current directory whose
  name ends in \<^verbatim>\<open>.txt\<close>; a name that begins with a dot is not matched by \<^verbatim>\<open>*\<close>. The
  moves of the loop touch pairwise different names, so the order of the matches is left
  as the listing has it.
\<close>

definition glob_txt :: "filesystem \<Rightarrow> string list" where
  "glob_txt fs =
     concat (map (\<lambda>(p, e). case p of [name] \<Rightarrow>
                                  (if \<not> hidden name \<and> ends_with ''.txt'' name then [name] else [])
                              | _ \<Rightarrow> []) fs)"

text \<open>\<^verbatim>\<open>${file%.txt}.csv\<close>: the name without its suffix \<^verbatim>\<open>.txt\<close>, followed by \<^verbatim>\<open>.csv\<close>.\<close>

definition strip_suffix :: "string \<Rightarrow> string \<Rightarrow> string" where
  "strip_suffix sfx s = (if ends_with sfx s then take (length s - length sfx) s else s)"

definition csv_name :: "string \<Rightarrow> string" where
  "csv_name file = strip_suffix ''.txt'' file @ ''.csv''"

text \<open>
  \<^verbatim>\<open>mv src dst\<close> for two names of the current directory. The entry \<open>src\<close> and everything
  below it moves to \<open>dst\<close>, or into \<open>dst\<close> when that is a directory; a regular file
  replaces a regular file of the target name, a directory replaces an empty directory;
  in every other case \<^verbatim>\<open>mv\<close> reports an error and changes nothing.
\<close>

definition rename_prefix :: "string \<Rightarrow> path \<Rightarrow> filesystem \<Rightarrow> filesystem" where
  "rename_prefix src dst fs =
     map (\<lambda>(p, e). case p of
                      [] \<Rightarrow> (p, e)
                    | c # rest \<Rightarrow> (if c = src then (dst @ rest, e) else (p, e))) fs"

definition remove_path :: "path \<Rightarrow> filesystem \<Rightarrow> filesystem" where
  "remove_path q fs = filter (\<lambda>(p, e). p \<noteq> q) fs"

definition is_empty_directory :: "path \<Rightarrow> filesystem \<Rightarrow> bool" where
  "is_empty_directory d fs =
     list_all (\<lambda>(p, e). length p \<le> length d \<or> take (length d) p \<noteq> d) fs"

definition mv_onto :: "entry \<Rightarrow> string \<Rightarrow> path \<Rightarrow> filesystem \<Rightarrow> filesystem" where
  "mv_onto s src dst fs =
     (case map_of fs dst of
        None \<Rightarrow> rename_prefix src dst fs
      | Some (File _) \<Rightarrow>
          (case s of
             File _ \<Rightarrow> rename_prefix src dst (remove_path dst fs)
           | Directory \<Rightarrow> fs)
      | Some Directory \<Rightarrow>
          (case s of
             File _ \<Rightarrow> fs
           | Directory \<Rightarrow>
               (if is_empty_directory dst fs then rename_prefix src dst (remove_path dst fs)
                else fs)))"

definition mv :: "string \<Rightarrow> string \<Rightarrow> filesystem \<Rightarrow> filesystem" where
  "mv src dst fs =
     (case map_of fs [src] of
        None \<Rightarrow> fs
      | Some s \<Rightarrow>
          (case map_of fs [dst] of
             Some Directory \<Rightarrow> mv_onto s src [dst, src] fs
           | _ \<Rightarrow> mv_onto s src [dst] fs))"

text \<open>
  The rename script: \<^verbatim>\<open>for file in *.txt; do mv "$file" "${file%.txt}.csv"; done\<close>. When
  nothing matches, the shell reports \<^verbatim>\<open>no matches found\<close> and the loop does not run. A
  name that begins with a hyphen reaches \<^verbatim>\<open>mv\<close> as an option: \<^verbatim>\<open>mv\<close> reports an error
  and changes nothing.
\<close>

definition is_option :: "string \<Rightarrow> bool" where
  "is_option name = (case name of [] \<Rightarrow> False | c # _ \<Rightarrow> c = CHR ''-'')"

definition mv_command :: "string \<Rightarrow> string \<Rightarrow> filesystem \<Rightarrow> filesystem" where
  "mv_command src dst fs = (if is_option src then fs else mv src dst fs)"

definition rename_txt_to_csv :: "filesystem \<Rightarrow> sh_error + filesystem" where
  "rename_txt_to_csv fs =
     (case glob_txt fs of
        [] \<Rightarrow> Inl NoMatchesFound
      | file # files \<Rightarrow>
          Inr (fold (\<lambda>file. mv_command file (csv_name file)) (file # files) fs))"

text \<open>
  \<^verbatim>\<open>add_header.sh\<close>. \<^verbatim>\<open>find . -name "*.csv"\<close> lists every entry, at any depth, whose
  last component ends in \<^verbatim>\<open>.csv\<close>. The loop runs once per listed path; the shell splits
  the listing at whitespace, so this is the script for names without whitespace.
  \<^verbatim>\<open>gsed -i '1s/^/DateTime,Open,High,Low,Close,Volume\n/'\<close> rewrites a regular file,
  putting the header and a newline in front of its first line; a file without a first
  line has nothing to substitute and stays empty, and a directory is reported and left
  alone.
\<close>

definition find_name_csv :: "filesystem \<Rightarrow> path list" where
  "find_name_csv fs =
     map fst (filter (\<lambda>(p, e). p \<noteq> [] \<and> ends_with ''.csv'' (last p)) fs)"

definition csv_header :: string where
  "csv_header = ''DateTime,Open,High,Low,Close,Volume''"

definition sed_insert_header :: "string \<Rightarrow> string" where
  "sed_insert_header content =
     (if content = [] then [] else csv_header @ [CHR 0x0A] @ content)"

definition gsed_i :: "path \<Rightarrow> filesystem \<Rightarrow> filesystem" where
  "gsed_i file fs =
     map (\<lambda>(p, e). if p = file
                    then (case e of File content \<Rightarrow> (p, File (sed_insert_header content))
                                  | Directory \<Rightarrow> (p, e))
                    else (p, e)) fs"

definition add_header :: "filesystem \<Rightarrow> filesystem" where
  "add_header fs = fold gsed_i (find_name_csv fs) fs"

text \<open>
  The new names are free: no entry of the current directory, and nothing below one, bears
  the \<^verbatim>\<open>.csv\<close> name that a matched \<^verbatim>\<open>.txt\<close> name is renamed to.
\<close>

definition new_names_free :: "filesystem \<Rightarrow> bool" where
  "new_names_free fs =
     list_all (\<lambda>n. list_all (\<lambda>(p, e). p = [] \<or> hd p \<noteq> csv_name n) fs) (glob_txt fs)"

text \<open>Names without whitespace: no component of a path holds a space, a tab or a newline.\<close>

definition is_whitespace :: "char \<Rightarrow> bool" where
  "is_whitespace c = (c = CHR '' '' \<or> c = CHR 0x09 \<or> c = CHR 0x0A)"

definition names_without_whitespace :: "filesystem \<Rightarrow> bool" where
  "names_without_whitespace fs =
     list_all (\<lambda>(p, e). list_all (\<lambda>name. \<not> list_ex is_whitespace name) p) fs"

text \<open>A small directory: two text files, one of them hidden, a data file and a subdirectory.\<close>

definition example_directory :: filesystem where
  "example_directory =
     [([''a.txt''], File ''1,2''),
      ([''.notes.txt''], File ''n''),
      ([''b.csv''], File ''3,4''),
      ([''sub''], Directory),
      ([''sub'', ''c.txt''], File ''5'')]"

section \<open>Properties\<close>

subsection \<open>Time arithmetic\<close>

lemma date_of_mono: "s \<le> t \<Longrightarrow> date_of s \<le> date_of t"
  by (simp add: date_of_def us_per_day_def zdiv_mono1)

lemma weekday_range: "0 \<le> weekday d \<and> weekday d < 7"
  by (simp add: weekday_def)

lemma weekday_add: "weekday (d + k) = (weekday d + k) mod 7"
proof -
  have "d + k + 6 = (d + 6) + k" by simp
  then show ?thesis
    unfolding weekday_def by (simp only: mod_add_left_eq)
qed

lemma weekday_back: "weekday (x - (weekday x + 6)) = 1"
proof -
  have e: "x - (weekday x + 6) = x + (- (weekday x + 6))" by simp
  have "weekday (x + (- (weekday x + 6))) = (weekday x + (- (weekday x + 6))) mod 7"
    by (rule weekday_add)
  then show ?thesis unfolding e by simp
qed

lemma weekday_in_apply_range:
  assumes "weekday R = 1" "R + 6 \<le> x" "x \<le> R + 12"
  shows "weekday x = x - R - 6"
proof -
  define k where "k = x - R"
  have x: "x = R + k" by (simp add: k_def)
  have "k = 6 \<or> k = 7 \<or> k = 8 \<or> k = 9 \<or> k = 10 \<or> k = 11 \<or> k = 12"
    using assms(2,3) unfolding k_def by arith
  moreover have "weekday x = (1 + k) mod 7"
    unfolding x using weekday_add [of R k] assms(1) by simp
  ultimately show ?thesis
    unfolding x by auto
qed

lemma Timestamp_ordinal_shift:
  "Timestamp_ordinal (ts + n * ns_per_day) = Timestamp_ordinal ts + n"
  by (simp add: Timestamp_ordinal_def ns_per_day_def)

lemma Timestamp_ordinal_mono: "s \<le> t \<Longrightarrow> Timestamp_ordinal s \<le> Timestamp_ordinal t"
  by (simp add: Timestamp_ordinal_def ns_per_day_def zdiv_mono1)

lemma Timestamp_add_days_representable:
  assumes "representable ts" and "representable (ts + n * ns_per_day)"
  shows "Timestamp_add_days ts n = Inr (ts + n * ns_per_day)"
  using assms by (simp add: Timestamp_add_days_def representable_def)

lemma Timestamp_add_days_result:
  assumes "representable ts" and "Timestamp_add_days ts n = Inr r" and "0 \<le> n"
  shows "r = ts + n * ns_per_day \<and> representable r"
proof -
  have "0 \<le> n * ns_per_day"
    using assms(3) by (simp add: ns_per_day_def)
  then have "NaT < ts + n * ns_per_day"
    using assms(1) by (simp add: representable_def)
  then show ?thesis
    using assms(1,2) by (auto simp: Timestamp_add_days_def representable_def split: if_splits)
qed

lemma preceding_tuesday_value:
  assumes "representable d"
      and "representable (d - (weekday (Timestamp_ordinal d) + 6) * ns_per_day)"
  shows "date_of_preceding_tuesday d
       = Inr (Timestamp_ordinal d - (weekday (Timestamp_ordinal d) + 6))"
proof -
  let ?w = "weekday (Timestamp_ordinal d)"
  let ?r = "d - (?w + 6) * ns_per_day"
  have today: "Timestamp_date d = Inr (Timestamp_ordinal d)"
    using assms(1) by (simp add: Timestamp_date_def representable_def)
  have "0 \<le> ?w \<and> ?w < 7"
    by (rule weekday_range)
  then have n: "days_since_preceding_tuesday ?w = Some (?w + 6)"
    unfolding days_since_preceding_tuesday_def by auto
  have r: "d + (- (?w + 6)) * ns_per_day = ?r"
    by (simp add: algebra_simps)
  have shift: "Timestamp_add_days d (- (?w + 6)) = Inr ?r"
    using Timestamp_add_days_representable [of d "- (?w + 6)"] assms unfolding r by simp
  have "Timestamp_ordinal ?r = Timestamp_ordinal d - (?w + 6)"
    using Timestamp_ordinal_shift [of d "- (?w + 6)"] unfolding r by simp
  then have result: "Timestamp_date ?r = Inr (Timestamp_ordinal d - (?w + 6))"
    using assms(2) by (simp add: Timestamp_date_def representable_def)
  show ?thesis
    by (simp only: date_of_preceding_tuesday_def today n shift result sum.case option.case)
qed

subsection \<open>C10\<close>

text \<open>
  C10, as the code has it. For every timestamp \<open>d\<close> from which the 6 to 12 days can be
  subtracted without leaving the range of pandas timestamps,
  \<^verbatim>\<open>date_of_preceding_tuesday(d)\<close> returns a Tuesday that lies between 6 and 12 days
  before the date of \<open>d\<close>; and for every report-observation date \<open>R\<close> that is a Tuesday
  and whose apply range exists, and every such \<open>d\<close> in the apply range from
  \<^verbatim>\<open>calc_begin_cot_apply_date_range(R)\<close> to \<^verbatim>\<open>calc_end_cot_apply_date_range(R)\<close>
  (that is, from \<open>R\<close> + 6 days to \<open>R\<close> + 12 days), the function returns the date of \<open>R\<close>.
\<close>

theorem date_of_preceding_tuesday_right_inverse:
  "(representable d
      \<and> representable (d - (weekday (Timestamp_ordinal d) + 6) * ns_per_day)
    \<longrightarrow> (\<exists>r. date_of_preceding_tuesday d = Inr r \<and> weekday r = 1
             \<and> 6 \<le> Timestamp_ordinal d - r \<and> Timestamp_ordinal d - r \<le> 12))
   \<and> (representable R \<and> weekday (Timestamp_ordinal R) = 1
        \<and> calc_begin_cot_apply_date_range R = Inr b \<and> calc_end_cot_apply_date_range R = Inr e
        \<and> b \<le> d \<and> d \<le> e
        \<and> representable (d - (weekday (Timestamp_ordinal d) + 6) * ns_per_day)
      \<longrightarrow> date_of_preceding_tuesday d = Inr (Timestamp_ordinal R))"
proof (intro conjI impI)
  assume a: "representable d
      \<and> representable (d - (weekday (Timestamp_ordinal d) + 6) * ns_per_day)"
  let ?w = "weekday (Timestamp_ordinal d)"
  have w: "0 \<le> ?w \<and> ?w < 7"
    by (rule weekday_range)
  have tue: "weekday (Timestamp_ordinal d - (?w + 6)) = 1"
    by (rule weekday_back)
  show "\<exists>r. date_of_preceding_tuesday d = Inr r \<and> weekday r = 1
        \<and> 6 \<le> Timestamp_ordinal d - r \<and> Timestamp_ordinal d - r \<le> 12"
    using a w tue by (simp add: preceding_tuesday_value)
next
  assume a: "representable R \<and> weekday (Timestamp_ordinal R) = 1
        \<and> calc_begin_cot_apply_date_range R = Inr b \<and> calc_end_cot_apply_date_range R = Inr e
        \<and> b \<le> d \<and> d \<le> e
        \<and> representable (d - (weekday (Timestamp_ordinal d) + 6) * ns_per_day)"
  have b: "b = R + 6 * ns_per_day \<and> representable b"
    by (rule Timestamp_add_days_result)
      (use a in \<open>simp_all add: calc_begin_cot_apply_date_range_def\<close>)
  have e: "e = R + 12 * ns_per_day \<and> representable e"
    by (rule Timestamp_add_days_result)
      (use a in \<open>simp_all add: calc_end_cot_apply_date_range_def\<close>)
  have d: "representable d"
    using a b e by (simp add: representable_def)
  have lo: "Timestamp_ordinal R + 6 \<le> Timestamp_ordinal d"
    using a b Timestamp_ordinal_mono [of "R + 6 * ns_per_day" d]
    by (simp add: Timestamp_ordinal_shift)
  have hi: "Timestamp_ordinal d \<le> Timestamp_ordinal R + 12"
    using a e Timestamp_ordinal_mono [of d "R + 12 * ns_per_day"]
    by (simp add: Timestamp_ordinal_shift)
  have "weekday (Timestamp_ordinal R) = 1"
    using a by simp
  with lo hi
  have "Timestamp_ordinal d - (weekday (Timestamp_ordinal d) + 6) = Timestamp_ordinal R"
    using weekday_in_apply_range [of "Timestamp_ordinal R" "Timestamp_ordinal d"] by simp
  then show "date_of_preceding_tuesday d = Inr (Timestamp_ordinal R)"
    using a d by (simp add: preceding_tuesday_value)
qed

text \<open>
  The report of Tuesday 2021-11-30 (ordinal 738124, which is 18961 days after
  1970-01-01) and an intraday bar of Monday 2021-12-06 at 09:30.
\<close>

theorem date_of_preceding_tuesday_right_inverse_witness:
  "representable (18961 * ns_per_day)
   \<and> representable (18967 * ns_per_day + 570 * ns_per_minute)
   \<and> representable (18967 * ns_per_day + 570 * ns_per_minute
        - (weekday (Timestamp_ordinal (18967 * ns_per_day + 570 * ns_per_minute)) + 6) * ns_per_day)
   \<and> weekday (Timestamp_ordinal (18961 * ns_per_day)) = 1
   \<and> calc_begin_cot_apply_date_range (18961 * ns_per_day) = Inr (18967 * ns_per_day)
   \<and> calc_end_cot_apply_date_range (18961 * ns_per_day) = Inr (18973 * ns_per_day)
   \<and> 18967 * ns_per_day \<le> 18967 * ns_per_day + 570 * ns_per_minute
   \<and> 18967 * ns_per_day + 570 * ns_per_minute \<le> 18973 * ns_per_day
   \<and> date_of_preceding_tuesday (18967 * ns_per_day + 570 * ns_per_minute) = Inr 738124"
proof -
  let ?R = "18961 * ns_per_day" and ?d = "18967 * ns_per_day + 570 * ns_per_minute"
  have o: "Timestamp_ordinal ?d = 738130" "Timestamp_ordinal ?R = 738124"
    by (simp_all add: Timestamp_ordinal_def ns_per_day_def ns_per_minute_def)
  have w: "weekday 738130 = 0" "weekday 738124 = 1"
    by (simp_all add: weekday_def)
  have h1: "representable ?R \<and> representable ?d
      \<and> representable (?d - (weekday (Timestamp_ordinal ?d) + 6) * ns_per_day)"
    unfolding o w
    by (simp add: representable_def NaT_def Timestamp_max_def ns_per_day_def ns_per_minute_def)
  have h2: "calc_begin_cot_apply_date_range ?R = Inr (18967 * ns_per_day)
      \<and> calc_end_cot_apply_date_range ?R = Inr (18973 * ns_per_day)"
    by (simp add: calc_begin_cot_apply_date_range_def calc_end_cot_apply_date_range_def
        Timestamp_add_days_def NaT_def Timestamp_max_def ns_per_day_def)
  have h3: "18967 * ns_per_day \<le> ?d \<and> ?d \<le> 18973 * ns_per_day"
    by (simp add: ns_per_day_def ns_per_minute_def)
  show ?thesis
    using h1 h2 h3 o w
      date_of_preceding_tuesday_right_inverse
        [of ?d ?R "18967 * ns_per_day" "18973 * ns_per_day"]
    by simp
qed

text \<open>
  C10 as stated, for every timestamp, fails: 1677-09-25 12:00 is a pandas timestamp and a
  Saturday; the Tuesday eleven days earlier, 1677-09-14, lies before the earliest pandas
  timestamp, and the subtraction raises \<^verbatim>\<open>OutOfBoundsDatetime\<close>.
\<close>

theorem date_of_preceding_tuesday_out_of_bounds_counterexample:
  "representable (- 9222984000000000000)
   \<and> Timestamp_date (- 9222984000000000000) = Inr 612415
   \<and> date_of_preceding_tuesday (- 9222984000000000000) = Inl OutOfBoundsDatetime"
  by (simp add: representable_def NaT_def Timestamp_max_def Timestamp_date_def
      Timestamp_ordinal_def ns_per_day_def weekday_def days_since_preceding_tuesday_def
      date_of_preceding_tuesday_def Timestamp_add_days_def)

subsection \<open>C7\<close>

lemma resample_bins_select_Volume:
  "resample_bins (map DateTime (select_Volume df)) = resample_bins (map DateTime df)"
  by (simp add: select_Volume_def bar.truncate_def comp_def)

lemma select_Volume_resample:
  "select_Volume (resample_1T_sum sum_others df)
     = map (\<lambda>b. \<lparr>DateTime = b,
                  Volume = sum_list (map Volume (filter (\<lambda>r. minute_floor (DateTime r) = b) df))\<rparr>)
         (resample_bins (map DateTime df))"
  by (simp add: select_Volume_def resample_1T_sum_def bar.truncate_def bar.extend_def comp_def)

lemma filter_select_Volume:
  "map Volume (filter (\<lambda>r. minute_floor (DateTime r) = b) (select_Volume df))
     = map Volume (filter (\<lambda>r. minute_floor (DateTime r) = b) df)"
  by (induction df) (simp_all add: select_Volume_def bar.truncate_def)

lemma resample_volume_by_minute_same_sums:
  "resample_volume_by_minute_cutoff sum_others df = resample_volume_by_minute_dte df"
  unfolding resample_volume_by_minute_cutoff_def resample_volume_by_minute_dte_def Let_def
  by (simp only: select_Volume_resample resample_bins_select_Volume filter_select_Volume)

lemma example_dte_bars_by_minute:
  "resample_volume_by_minute_dte example_dte_bars
     = [(570 * us_per_minute, 12), (571 * us_per_minute, 3)]"
  by code_simp

text \<open>
  C7, as the code has it. For every dataframe with a datetime index and a \<^verbatim>\<open>Volume\<close>
  column that has no rows, or whose \<^verbatim>\<open>Volume\<close> column is numeric, or none of whose
  other columns is numeric, \<^verbatim>\<open>resample_volume_by_minute\<close> of the split-by-cutoff-date
  notebook and \<^verbatim>\<open>resample_volume_by_minute\<close> of the split-by-days-to-expiration
  notebook return the same per-minute summed volume frame (whatever the other columns
  and however they are summed). On a frame with rows whose \<^verbatim>\<open>Volume\<close> column has the
  type \<^verbatim>\<open>object\<close> and which has a numeric column, the function of the
  split-by-cutoff-date notebook raises \<^verbatim>\<open>KeyError\<close>. The function of the
  split-by-days-to-expiration notebook returns the frame in every case.
\<close>

theorem resample_volume_by_minute_notebooks_agree_when_Volume_summed:
  "(bars df = [] \<or> Volume_dtype df = Numeric \<or> Numeric \<notin> set (other_dtypes df)
      \<longrightarrow> resample_volume_by_minute_cutoff_typed sum_others df
          = resample_volume_by_minute_dte_typed df)
   \<and> (bars df \<noteq> [] \<and> Volume_dtype df = Object \<and> Numeric \<in> set (other_dtypes df)
      \<longrightarrow> resample_volume_by_minute_cutoff_typed sum_others df = Inl KeyError)
   \<and> resample_volume_by_minute_dte_typed df = Inr (resample_volume_by_minute_dte (bars df))"
proof (intro conjI impI)
  show dte: "resample_volume_by_minute_dte_typed df
      = Inr (resample_volume_by_minute_dte (bars df))"
    by (simp add: resample_volume_by_minute_dte_typed_def sum_keeps_Volume_def)
  assume "bars df = [] \<or> Volume_dtype df = Numeric \<or> Numeric \<notin> set (other_dtypes df)"
  then have "resample_volume_by_minute_cutoff_typed sum_others df
      = Inr (resample_volume_by_minute_cutoff sum_others (bars df))"
    by (auto simp: resample_volume_by_minute_cutoff_typed_def sum_keeps_Volume_def)
  then show "resample_volume_by_minute_cutoff_typed sum_others df
      = resample_volume_by_minute_dte_typed df"
    by (simp only: dte resample_volume_by_minute_same_sums)
next
  assume "bars df \<noteq> [] \<and> Volume_dtype df = Object \<and> Numeric \<in> set (other_dtypes df)"
  then show "resample_volume_by_minute_cutoff_typed sum_others df = Inl KeyError"
    by (simp add: resample_volume_by_minute_cutoff_typed_def sum_keeps_Volume_def)
qed

text \<open>
  The example bars in a frame whose \<^verbatim>\<open>Volume\<close> column is numeric, as a contract frame
  with its days to expiration is, and in a frame whose \<^verbatim>\<open>Volume\<close> column has the type
  \<^verbatim>\<open>object\<close>.
\<close>

theorem resample_volume_by_minute_notebooks_agree_when_Volume_summed_witness:
  "Volume_dtype \<lparr>Volume_dtype = Numeric, other_dtypes = [Numeric], bars = example_dte_bars\<rparr>
     = Numeric
   \<and> resample_volume_by_minute_cutoff_typed (\<lambda>_. ())
        \<lparr>Volume_dtype = Numeric, other_dtypes = [Numeric], bars = example_dte_bars\<rparr>
     = Inr [(570 * us_per_minute, 12), (571 * us_per_minute, 3)]
   \<and> resample_volume_by_minute_dte_typed
        \<lparr>Volume_dtype = Numeric, other_dtypes = [Numeric], bars = example_dte_bars\<rparr>
     = Inr [(570 * us_per_minute, 12), (571 * us_per_minute, 3)]
   \<and> example_dte_bars \<noteq> []
   \<and> Numeric \<in> set [Numeric]
   \<and> resample_volume_by_minute_cutoff_typed (\<lambda>_. ())
        \<lparr>Volume_dtype = Object, other_dtypes = [Numeric], bars = example_dte_bars\<rparr>
     = Inl KeyError
   \<and> resample_volume_by_minute_dte_typed
        \<lparr>Volume_dtype = Object, other_dtypes = [Numeric], bars = example_dte_bars\<rparr>
     = Inr [(570 * us_per_minute, 12), (571 * us_per_minute, 3)]"
proof -
  have ne: "example_dte_bars \<noteq> []"
    by (simp add: example_dte_bars_def)
  show ?thesis
    using ne
      resample_volume_by_minute_notebooks_agree_when_Volume_summed
        [of "\<lparr>Volume_dtype = Numeric, other_dtypes = [Numeric], bars = example_dte_bars\<rparr>"
            "\<lambda>_. ()"]
      resample_volume_by_minute_notebooks_agree_when_Volume_summed
        [of "\<lparr>Volume_dtype = Object, other_dtypes = [Numeric], bars = example_dte_bars\<rparr>"
            "\<lambda>_. ()"]
    by (simp add: example_dte_bars_by_minute)
qed

text \<open>
  C7 as stated, for every dataframe with a \<^verbatim>\<open>Volume\<close> column, fails: in the master frame
  of the split-by-days-to-expiration notebook the \<^verbatim>\<open>Volume\<close> column has the type
  \<^verbatim>\<open>object\<close> and \<^verbatim>\<open>Days To Contract Expiration\<close> is numeric. There the function of
  the split-by-cutoff-date notebook raises \<^verbatim>\<open>KeyError\<close>, and the function of the
  split-by-days-to-expiration notebook returns the by-minute frame.
\<close>

theorem resample_volume_by_minute_cutoff_KeyError_counterexample:
  "resample_volume_by_minute_cutoff_typed (\<lambda>_. ())
        \<lparr>Volume_dtype = Object, other_dtypes = [Numeric], bars = example_dte_bars\<rparr>
     = Inl KeyError
   \<and> resample_volume_by_minute_dte_typed
        \<lparr>Volume_dtype = Object, other_dtypes = [Numeric], bars = example_dte_bars\<rparr>
     = Inr (resample_volume_by_minute_dte example_dte_bars)
   \<and> resample_volume_by_minute_dte example_dte_bars
     = [(570 * us_per_minute, 12), (571 * us_per_minute, 3)]"
proof -
  have "example_dte_bars \<noteq> []"
    by (simp add: example_dte_bars_def)
  then show ?thesis
    by (simp add: resample_volume_by_minute_cutoff_typed_def resample_volume_by_minute_dte_typed_def
        sum_keeps_Volume_def example_dte_bars_by_minute)
qed

subsection \<open>C6\<close>

text \<open>
  C6. The result of \<^verbatim>\<open>split_dataframe_by_date\<close> does not depend on its first argument:
  with the same cutoff and the same global \<^verbatim>\<open>master_ungrouped_df\<close>, any two frames
  passed as \<open>df\<close> give the same result (the same pair, or the same error).
\<close>

theorem split_dataframe_by_date_ignores_df:
  "split_dataframe_by_date master_ungrouped_df df1 split_date
     = split_dataframe_by_date master_ungrouped_df df2 split_date"
  by (simp add: split_dataframe_by_date_def)

subsection \<open>C1\<close>

text \<open>
  The two filters of each split are complementary, so each split partitions the frame it
  filters: for \<^verbatim>\<open>split_dataframe_by_dte\<close> that is the argument, for
  \<^verbatim>\<open>filter_and_split_cot_shorts_around_median\<close> (with a median that is a number) the rows
  of the argument whose value is not missing, and for \<^verbatim>\<open>split_dataframe_by_date\<close> the
  global frame.
\<close>

lemma split_dataframe_by_dte_partition:
  "mset (fst (split_dataframe_by_dte a_df dte_threshold))
     + mset (snd (split_dataframe_by_dte a_df dte_threshold)) = mset a_df
   \<and> length (fst (split_dataframe_by_dte a_df dte_threshold))
     + length (snd (split_dataframe_by_dte a_df dte_threshold)) = length a_df"
proof -
  let ?P = "\<lambda>r. real_of_int (Days_To_Contract_Expiration r) \<le> dte_threshold"
  have eq: "(\<lambda>r. dte_threshold < real_of_int (Days_To_Contract_Expiration r)) = (\<lambda>r. \<not> ?P r)"
    by (auto simp: not_le)
  show ?thesis
    unfolding split_dataframe_by_dte_def Let_def eq
    by (simp add: sum_length_filter_compl)
qed

lemma filter_and_split_cot_partition:
  "mset (fst (filter_and_split_cot_shorts_around_median cot_df (Some m)))
     + mset (snd (filter_and_split_cot_shorts_around_median cot_df (Some m)))
     = mset (filter (\<lambda>r. PMPU_Shorts_Pct_of_OI r \<noteq> None) cot_df)
   \<and> length (fst (filter_and_split_cot_shorts_around_median cot_df (Some m)))
     + length (snd (filter_and_split_cot_shorts_around_median cot_df (Some m)))
     = length (filter (\<lambda>r. PMPU_Shorts_Pct_of_OI r \<noteq> None) cot_df)"
proof -
  let ?known = "filter (\<lambda>r. PMPU_Shorts_Pct_of_OI r \<noteq> None) cot_df"
  let ?P = "\<lambda>r. float_ge (PMPU_Shorts_Pct_of_OI r) (Some m)"
  have above: "filter ?P cot_df = filter ?P ?known"
    by (simp add: float_ge_def) (rule filter_cong, auto split: option.splits)
  have below: "filter (\<lambda>r. float_less (PMPU_Shorts_Pct_of_OI r) (Some m)) cot_df
      = filter (\<lambda>r. \<not> ?P r) ?known"
    by (simp add: float_ge_def float_less_def)
      (rule filter_cong, auto simp: not_le split: option.splits)
  have "mset (filter ?P ?known) + mset (filter (\<lambda>r. \<not> ?P r) ?known) = mset ?known"
    by (simp only: mset_filter multiset_partition [symmetric])
  moreover have "length (filter ?P ?known) + length (filter (\<lambda>r. \<not> ?P r) ?known) = length ?known"
    by (rule sum_length_filter_compl)
  ultimately show ?thesis
    unfolding filter_and_split_cot_shorts_around_median_def Let_def fst_conv snd_conv above below
    by simp
qed

lemma split_dataframe_by_date_partitions_master:
  "strptime_Ymd split_date = Inr t \<Longrightarrow>
   \<exists>before after. split_dataframe_by_date master_ungrouped_df df split_date = Inr (before, after)
      \<and> mset before + mset after = mset master_ungrouped_df
      \<and> length before + length after = length master_ungrouped_df"
proof -
  assume t: "strptime_Ymd split_date = Inr t"
  let ?P = "\<lambda>r. date_of (DateTime r) < date_of t"
  have eq: "(\<lambda>r. date_of t \<le> date_of (DateTime r)) = (\<lambda>r. \<not> ?P r)"
    by (auto simp: not_less)
  have "split_dataframe_by_date master_ungrouped_df df split_date
          = Inr (filter ?P master_ungrouped_df, filter (\<lambda>r. \<not> ?P r) master_ungrouped_df)"
    using t by (simp add: split_dataframe_by_date_def eq)
  moreover have "mset (filter ?P master_ungrouped_df) + mset (filter (\<lambda>r. \<not> ?P r) master_ungrouped_df)
      = mset master_ungrouped_df"
    by simp
  moreover have "length (filter ?P master_ungrouped_df) + length (filter (\<lambda>r. \<not> ?P r) master_ungrouped_df)
      = length master_ungrouped_df"
    by (rule sum_length_filter_compl)
  ultimately show ?thesis by blast
qed

text \<open>
  C1. Each threshold split should partition the rows of its input. For
  \<^verbatim>\<open>split_dataframe_by_date\<close> the rows returned are those of the global frame: called
  with a two-row frame of 2015-07-03 while the global frame holds one row of 2015-07-01,
  it returns that one row as the before-part and nothing as the after-part, so neither row
  of the input is in either part and the two row counts add up to 1, not 2.
\<close>

theorem split_dataframe_by_date_drops_input_rows:
  "split_dataframe_by_date
      [\<lparr>DateTime = 735780 * us_per_day + 570 * us_per_minute, Volume = 12\<rparr>]
      [\<lparr>DateTime = 735782 * us_per_day + 570 * us_per_minute, Volume = 7\<rparr>,
       \<lparr>DateTime = 735782 * us_per_day + 571 * us_per_minute, Volume = 3\<rparr>]
      ''2015-07-02''
    = Inr ([\<lparr>DateTime = 735780 * us_per_day + 570 * us_per_minute, Volume = 12\<rparr>], [])"
proof -
  have p: "strptime_Ymd ''2015-07-02'' = Inr (735781 * us_per_day)"
    by code_simp
  show ?thesis
    by (simp add: split_dataframe_by_date_def p date_of_def us_per_day_def us_per_minute_def)
qed

subsection \<open>C4\<close>

lemma set_unique: "set (unique xs) = set xs"
  by (induction xs rule: unique.induct) auto

lemma sorted_last_Max:
  fixes ys :: "int list"
  shows "sorted ys \<Longrightarrow> ys \<noteq> [] \<Longrightarrow> last ys = Max (set ys)"
proof (induction ys)
  case Nil
  then show ?case by simp
next
  case (Cons y ys)
  show ?case
  proof (cases "ys = []")
    case True
    then show ?thesis by simp
  next
    case False
    have "last ys = Max (set ys)"
      using Cons False by simp
    moreover have "y \<le> Max (set ys)"
      using Cons.prems False by (simp add: Max_ge_iff) (metis last_in_set)
    ultimately show ?thesis
      using False by (simp add: max_def)
  qed
qed

lemma sorted_le_last:
  fixes xs :: "int list"
  shows "sorted xs \<Longrightarrow> x \<in> set xs \<Longrightarrow> x \<le> last xs"
  by (induction xs) auto

lemma last_sorted_unique_days:
  assumes "df \<noteq> []"
  shows "last (sort (get_unique_trading_days df)) = Max ((\<lambda>r. date_of (DateTime r)) ` set df)"
proof -
  have ne: "sort (get_unique_trading_days df) \<noteq> []"
    using assms by (cases df) (simp_all add: get_unique_trading_days_def)
  have "last (sort (get_unique_trading_days df)) = Max (set (sort (get_unique_trading_days df)))"
    using ne by (intro sorted_last_Max) simp_all
  then show ?thesis
    by (simp add: get_unique_trading_days_def set_unique)
qed

lemma add_dte_column_to_df_value:
  assumes ne: "df \<noteq> []" and intraday: "\<not> day_resolution df"
  defines "rows \<equiv> filter (\<lambda>r. date_of (DateTime r) = Max ((\<lambda>r. date_of (DateTime r)) ` set df)) df"
  shows "rows \<noteq> []"
    and "add_dte_column_to_df df
      = Inr (map (\<lambda>r. \<lparr>DateTime = DateTime r, Volume = Volume r,
                        Days_To_Contract_Expiration = (DateTime (last rows) - DateTime r) div us_per_day\<rparr>) df)"
proof -
  let ?D = "Max ((\<lambda>r. date_of (DateTime r)) ` set df)"
  have "?D \<in> (\<lambda>r. date_of (DateTime r)) ` set df"
    using ne by (intro Max_in) simp_all
  then obtain r where "r \<in> set df" "date_of (DateTime r) = ?D"
    by auto
  then have "r \<in> set rows"
    by (simp add: rows_def)
  then show rne: "rows \<noteq> []"
    by auto
  have une: "sort (get_unique_trading_days df) \<noteq> []"
    using ne by (cases df) (simp_all add: get_unique_trading_days_def)
  have "date_of (DateTime (hd df)) \<in> (\<lambda>r. date_of (DateTime r)) ` set df"
    using ne by simp
  then have "date_of (DateTime (hd df)) \<le> ?D"
    by (intro Max_ge) simp_all
  then have first: "\<not> ?D < date_of (DateTime (hd df))"
    by simp
  have "\<not> date_of (DateTime (last df)) < ?D" if "sorted (map DateTime df)"
  proof -
    have "DateTime r \<in> set (map DateTime df)"
      using \<open>r \<in> set df\<close> by simp
    then have "DateTime r \<le> last (map DateTime df)"
      using that by (rule sorted_le_last [rotated])
    then have "DateTime r \<le> DateTime (last df)"
      using ne by (simp add: last_map)
    then have "date_of (DateTime r) \<le> date_of (DateTime (last df))"
      by (rule date_of_mono)
    then show ?thesis
      using \<open>date_of (DateTime r) = ?D\<close> by simp
  qed
  then have loc: "loc_date ?D df = Inr (Frame_rows rows)"
    using first intraday unfolding loc_date_def rows_def Let_def by auto
  show "add_dte_column_to_df df
      = Inr (map (\<lambda>r. \<lparr>DateTime = DateTime r, Volume = Volume r,
                        Days_To_Contract_Expiration = (DateTime (last rows) - DateTime r) div us_per_day\<rparr>) df)"
    unfolding add_dte_column_to_df_def Let_def
    using une rne
    by (simp add: iloc_last_def last_sorted_unique_days [OF ne] loc calculate_dte_for_row_def days_def
        bar.extend_def dte_bar.fields_def)
qed

lemma last_filter_keep: "xs \<noteq> [] \<Longrightarrow> P (last xs) \<Longrightarrow> last (filter P xs) = last xs"
proof (induction xs)
  case Nil
  then show ?case by simp
next
  case (Cons x xs)
  show ?case
  proof (cases "xs = []")
    case True
    then show ?thesis using Cons.prems by simp
  next
    case False
    then have "last xs \<in> set (filter P xs)"
      using Cons.prems by simp
    then have "filter P xs \<noteq> []"
      by (metis empty_iff empty_set)
    then show ?thesis
      using Cons False by simp
  qed
qed

lemma latest_day_last_row:
  assumes ne: "df \<noteq> []" and latest: "\<forall>r\<in>set df. DateTime r \<le> DateTime (last df)"
  shows "last (filter (\<lambda>r. date_of (DateTime r) = Max ((\<lambda>r. date_of (DateTime r)) ` set df)) df) = last df"
proof -
  let ?f = "\<lambda>r. date_of (DateTime r)"
  have "Max (?f ` set df) = ?f (last df)"
  proof (rule Max_eqI)
    show "finite (?f ` set df)" by simp
    show "?f (last df) \<in> ?f ` set df" using ne by simp
    fix y assume "y \<in> ?f ` set df"
    then show "y \<le> ?f (last df)"
      using latest date_of_mono by auto
  qed
  then show ?thesis
    using ne by (simp add: last_filter_keep)
qed

text \<open>
  On a frame whose timestamps are all at midnight the lookup of the last trading day is a
  lookup by label: with one row on that day the function raises \<^verbatim>\<open>AttributeError\<close>.
\<close>

lemma add_dte_column_to_df_daily_bars:
  "add_dte_column_to_df
      [\<lparr>DateTime = 735780 * us_per_day, Volume = 12\<rparr>,
       \<lparr>DateTime = 735781 * us_per_day, Volume = 3\<rparr>]
   = Inl AttributeError"
  by (simp add: add_dte_column_to_df_def get_unique_trading_days_def iloc_last_def loc_date_def
      day_resolution_def time_of_def date_of_def us_per_day_def)

text \<open>
  C4, as the code has it. For every non-empty contract frame of intraday bars (not all
  of its timestamps are at midnight) whose last row carries the latest timestamp of the
  contract (as in a file in ascending time order),
  \<^verbatim>\<open>add_dte_column_to_df\<close> keeps every row and adds the column
  \<^verbatim>\<open>Days To Contract Expiration\<close>, whose value for each row is the number of whole days
  (the floor) between that row's timestamp and the timestamp of the last row; the value
  is non-negative for every row and 0 for the final bar.
\<close>

theorem add_dte_column_to_df_time_ordered:
  assumes ne: "a_contract_df \<noteq> []"
      and intraday: "\<exists>r\<in>set a_contract_df. time_of (DateTime r) \<noteq> 0"
      and latest: "\<forall>r\<in>set a_contract_df. DateTime r \<le> DateTime (last a_contract_df)"
  shows "\<exists>rows. add_dte_column_to_df a_contract_df = Inr rows
     \<and> length rows = length a_contract_df
     \<and> (\<forall>i<length a_contract_df.
           DateTime (rows ! i) = DateTime (a_contract_df ! i)
         \<and> Volume (rows ! i) = Volume (a_contract_df ! i)
         \<and> Days_To_Contract_Expiration (rows ! i)
             = (DateTime (last a_contract_df) - DateTime (a_contract_df ! i)) div us_per_day
         \<and> 0 \<le> Days_To_Contract_Expiration (rows ! i))
     \<and> Days_To_Contract_Expiration (last rows) = 0"
proof -
  let ?lm = "DateTime (last a_contract_df)"
  let ?rows = "map (\<lambda>r. \<lparr>DateTime = DateTime r, Volume = Volume r,
                        Days_To_Contract_Expiration = (?lm - DateTime r) div us_per_day\<rparr>) a_contract_df"
  have "\<not> day_resolution a_contract_df"
    using intraday by (simp add: day_resolution_def list_all_iff)
  then have val: "add_dte_column_to_df a_contract_df = Inr ?rows"
    using add_dte_column_to_df_value(2) [OF ne] latest_day_last_row [OF ne latest] by simp
  have nonneg: "0 \<le> (?lm - DateTime (a_contract_df ! i)) div us_per_day" if "i < length a_contract_df" for i
  proof -
    have "DateTime (a_contract_df ! i) \<le> ?lm"
      using latest that by simp
    then show ?thesis
      by (simp add: us_per_day_def pos_imp_zdiv_nonneg_iff)
  qed
  have "last ?rows = \<lparr>DateTime = ?lm, Volume = Volume (last a_contract_df),
                        Days_To_Contract_Expiration = (?lm - ?lm) div us_per_day\<rparr>"
    using ne by (simp add: last_map)
  then have "Days_To_Contract_Expiration (last ?rows) = 0"
    by simp
  then show ?thesis
    using val nonneg by (intro exI [of _ ?rows]) simp
qed

theorem add_dte_column_to_df_time_ordered_witness:
  "[\<lparr>DateTime = 735780 * us_per_day + 570 * us_per_minute, Volume = 12\<rparr>,
    \<lparr>DateTime = 735782 * us_per_day + 510 * us_per_minute, Volume = 3\<rparr>] \<noteq> []
   \<and> time_of (735780 * us_per_day + 570 * us_per_minute) \<noteq> 0
   \<and> 735780 * us_per_day + 570 * us_per_minute \<le> 735782 * us_per_day + 510 * us_per_minute
   \<and> (\<exists>rows. add_dte_column_to_df
          [\<lparr>DateTime = 735780 * us_per_day + 570 * us_per_minute, Volume = 12\<rparr>,
           \<lparr>DateTime = 735782 * us_per_day + 510 * us_per_minute, Volume = 3\<rparr>] = Inr rows
        \<and> length rows = 2
        \<and> Days_To_Contract_Expiration (rows ! 0) = 1
        \<and> Days_To_Contract_Expiration (rows ! 1) = 0
        \<and> Days_To_Contract_Expiration (last rows) = 0)"
proof -
  let ?df = "[\<lparr>DateTime = 735780 * us_per_day + 570 * us_per_minute, Volume = 12\<rparr>,
              \<lparr>DateTime = 735782 * us_per_day + 510 * us_per_minute, Volume = 3\<rparr>]"
  have h1: "?df \<noteq> []" by simp
  have t: "time_of (735780 * us_per_day + 570 * us_per_minute) \<noteq> 0"
    by (simp add: time_of_def us_per_day_def us_per_minute_def)
  then have h0: "\<exists>r\<in>set ?df. time_of (DateTime r) \<noteq> 0"
    by simp
  have le: "735780 * us_per_day + 570 * us_per_minute \<le> 735782 * us_per_day + 510 * us_per_minute"
    by (simp add: us_per_day_def us_per_minute_def)
  then have h2: "\<forall>r\<in>set ?df. DateTime r \<le> DateTime (last ?df)"
    by simp
  have d0: "(DateTime (last ?df) - DateTime (?df ! 0)) div us_per_day = 1"
    by (simp add: us_per_day_def us_per_minute_def)
  have d1: "(DateTime (last ?df) - DateTime (?df ! 1)) div us_per_day = 0"
    by simp
  obtain rows where r: "add_dte_column_to_df ?df = Inr rows" "length rows = length ?df"
      "\<forall>i<length ?df. Days_To_Contract_Expiration (rows ! i)
             = (DateTime (last ?df) - DateTime (?df ! i)) div us_per_day"
      "Days_To_Contract_Expiration (last rows) = 0"
    using add_dte_column_to_df_time_ordered [OF h1 h0 h2] by blast
  have "Days_To_Contract_Expiration (rows ! 0) = 1"
    using r(3) d0 by simp
  moreover have "Days_To_Contract_Expiration (rows ! 1) = 0"
    using r(3) d1 by simp
  ultimately show ?thesis
    using h1 t le r(1,2,4) by simp
qed

text \<open>
  C4 as stated, for every non-empty frame, fails: the last recorded minute is taken from
  the last row, in row order, of the latest trading day. In a frame holding the bar of
  10:00 before the bar of 09:00 of the same day, the reference is 09:00 and the 10:00 bar
  gets the value -1.
\<close>

theorem add_dte_column_to_df_negative_counterexample:
  "add_dte_column_to_df 
      [\<lparr>DateTime = 735780 * us_per_day + 600 * us_per_minute, Volume = 12\<rparr>,
       \<lparr>DateTime = 735780 * us_per_day + 540 * us_per_minute, Volume = 3\<rparr>]
   = Inr [\<lparr>DateTime = 735780 * us_per_day + 600 * us_per_minute, Volume = 12, Days_To_Contract_Expiration = - 1\<rparr>,
       \<lparr>DateTime = 735780 * us_per_day + 540 * us_per_minute, Volume = 3, Days_To_Contract_Expiration = 0\<rparr>]"
  by (simp add: add_dte_column_to_df_def get_unique_trading_days_def iloc_last_def loc_date_def
      day_resolution_def time_of_def calculate_dte_for_row_def days_def date_of_def
      us_per_day_def us_per_minute_def bar.extend_def dte_bar.fields_def)

subsection \<open>C2\<close>

lemma get_settlement_price_change_for_date_value:
  "get_settlement_price_change_for_date a_date a_settlement_df
     = Inr (case filter (\<lambda>r. date_of (Settlement_Date r) = a_date) a_settlement_df of
              [] \<Rightarrow> None
            | row # _ \<Rightarrow> Some (Price_Difference_Open_Prior_Settlement row))"
  by (simp add: get_settlement_price_change_for_date_def iloc_first_def split: list.splits)

lemma get_intraday_price_change_at_minute_sixty_value:
  "get_intraday_price_change_at_minute_sixty a_date intraday_df
     = Inr (case filter (\<lambda>r. Open_Minutes_Offset r = 59)
                   (filter (\<lambda>r. date_of (DateTime r) = a_date) intraday_df) of
              [] \<Rightarrow> None
            | row # _ \<Rightarrow> Some (Price_Change_From_Intraday_Open row))"
proof (cases "filter (\<lambda>r. date_of (DateTime r) = a_date) intraday_df = []")
  case True
  then show ?thesis
    by (simp add: get_intraday_price_change_at_minute_sixty_def del: filter_filter)
next
  case False
  then show ?thesis
    by (simp add: get_intraday_price_change_at_minute_sixty_def iloc_first_def Let_def
        split: list.splits del: filter_filter)
qed

lemma prices_for_dates_skip:
  assumes "get_settlement_price_change_for_date a_date a_settlement_df = Inr None
         \<or> get_intraday_price_change_at_minute_sixty a_date intraday_df = Inr None"
  shows "prices_for_dates (a_date # dates) a_settlement_df intraday_df
       = prices_for_dates dates a_settlement_df intraday_df"
proof -
  obtain a where a: "get_settlement_price_change_for_date a_date a_settlement_df = Inr a"
    using get_settlement_price_change_for_date_value by blast
  obtain b where b: "get_intraday_price_change_at_minute_sixty a_date intraday_df = Inr b"
    using get_intraday_price_change_at_minute_sixty_value by blast
  have "a = None \<or> b = None"
    using assms a b by simp
  then show ?thesis
    by (auto simp: a b split: sum.splits option.splits)
qed

lemma add_dte_column_to_df_empty: "add_dte_column_to_df [] = Inl IndexError"
  by (simp add: add_dte_column_to_df_def get_unique_trading_days_def iloc_last_def)

lemma split_dataframe_by_date_malformed:
  "strptime_Ymd split_date = Inl e \<Longrightarrow> split_dataframe_by_date master_ungrouped_df df split_date = Inl e"
  by (simp add: split_dataframe_by_date_def)

text \<open>
  C2, as the code has it. The two lookups of the settlement notebook handle an empty
  group themselves: when the queried date has no rows in the settlement frame, or no rows
  or no minute-59 bar in the intraday frame, they return \<^verbatim>\<open>None\<close> without raising, and
  otherwise the value of the first matching row; the correlation loop skips a date for
  which either lookup returned \<^verbatim>\<open>None\<close>. Elsewhere nothing catches an error:
  \<^verbatim>\<open>add_dte_column_to_df\<close> on an empty frame fails with \<^verbatim>\<open>IndexError\<close>, and
  \<^verbatim>\<open>split_dataframe_by_date\<close> passes on the \<^verbatim>\<open>ValueError\<close> of a malformed cutoff date.
\<close>

theorem empty_group_returns_None:
  "get_settlement_price_change_for_date a_date a_settlement_df
     = Inr (case filter (\<lambda>r. date_of (Settlement_Date r) = a_date) a_settlement_df of
              [] \<Rightarrow> None
            | row # _ \<Rightarrow> Some (Price_Difference_Open_Prior_Settlement row))
   \<and> get_intraday_price_change_at_minute_sixty a_date intraday_df
     = Inr (case filter (\<lambda>r. Open_Minutes_Offset r = 59)
                   (filter (\<lambda>r. date_of (DateTime r) = a_date) intraday_df) of
              [] \<Rightarrow> None
            | row # _ \<Rightarrow> Some (Price_Change_From_Intraday_Open row))
   \<and> (get_settlement_price_change_for_date a_date a_settlement_df = Inr None
         \<or> get_intraday_price_change_at_minute_sixty a_date intraday_df = Inr None
       \<longrightarrow> prices_for_dates (a_date # dates) a_settlement_df intraday_df
           = prices_for_dates dates a_settlement_df intraday_df)
   \<and> add_dte_column_to_df [] = Inl IndexError
   \<and> (strptime_Ymd split_date = Inl e
       \<longrightarrow> split_dataframe_by_date master_ungrouped_df df split_date = Inl e)"
  using get_settlement_price_change_for_date_value [of a_date a_settlement_df]
    get_intraday_price_change_at_minute_sixty_value [of a_date intraday_df]
    prices_for_dates_skip [of a_date a_settlement_df intraday_df dates]
    add_dte_column_to_df_empty
    split_dataframe_by_date_malformed [of split_date e master_ungrouped_df df]
  by blast

theorem empty_group_returns_None_witness:
  "get_settlement_price_change_for_date 735781 ([] :: settlement_row list) = Inr None
   \<and> strptime_Ymd ''2015-13-01'' = Inl ValueError
   \<and> prices_for_dates [735781] ([] :: settlement_row list) ([] :: intraday_bar list) = Inr []
   \<and> split_dataframe_by_date ([] :: bar list) ([] :: bar list) ''2015-13-01'' = Inl ValueError"
proof -
  have h1: "get_settlement_price_change_for_date 735781 ([] :: settlement_row list) = Inr None"
    by (simp add: get_settlement_price_change_for_date_def)
  have h2: "strptime_Ymd ''2015-13-01'' = Inl ValueError"
    by code_simp
  show ?thesis
    using h1 h2
      empty_group_returns_None [of 735781 "[] :: settlement_row list" "[] :: intraday_bar list"
        "[]" "''2015-13-01''" ValueError "[] :: bar list" "[] :: bar list"]
    by simp
qed

text \<open>
  C2 as stated fails: for a date without rows in the settlement frame, and for a date
  whose only intraday bar is not at minute 59, the lookups return \<^verbatim>\<open>None\<close>, not an
  error.
\<close>

theorem lookups_do_not_raise_counterexample:
  "get_settlement_price_change_for_date 735781
      [\<lparr>Settlement_Date = 735780 * us_per_day, Price_Difference_Open_Prior_Settlement = 1 / 4,
        Settlement_Symbol = ''LEV15''\<rparr>] = Inr None
   \<and> get_intraday_price_change_at_minute_sixty 735781
      [\<lparr>DateTime = 735781 * us_per_day + 570 * us_per_minute, Volume = 12, Symbol = ''LEV15'',
        Open_Minutes_Offset = 0, Price_Change_From_Intraday_Open = 0\<rparr>] = Inr None"
  by (simp add: get_settlement_price_change_for_date_def
      get_intraday_price_change_at_minute_sixty_def date_of_def us_per_day_def us_per_minute_def)

subsection \<open>C5\<close>

lemma distinct_unique: "distinct (unique xs)"
  by (induction xs rule: unique.induct) (auto simp: set_unique)

lemma length_unique: "length (unique xs) = card (set xs)"
  using distinct_card [OF distinct_unique, of xs] by (simp add: set_unique)

lemma num_unique_trading_days:
  "length (get_unique_trading_days df) = card ((\<lambda>r. date_of (DateTime r)) ` set df)"
  by (simp add: get_unique_trading_days_def length_unique)

lemma sum_list_single_hit:
  fixes v :: real
  shows "distinct bs \<Longrightarrow> sum_list (map (\<lambda>b. if a = b then v else 0) bs) = (if a \<in> set bs then v else 0)"
  by (induction bs) auto

lemma sum_list_by_bins:
  fixes V :: "'r \<Rightarrow> real"
  assumes "distinct bs"
  shows "sum_list (map (\<lambda>b. sum_list (map V (filter (\<lambda>r. f r = b) df))) bs)
       = sum_list (map V (filter (\<lambda>r. f r \<in> set bs) df))"
proof (induction df)
  case Nil
  then show ?case by simp
next
  case (Cons r df)
  have "sum_list (map (\<lambda>b. sum_list (map V (filter (\<lambda>r. f r = b) (r # df)))) bs)
      = sum_list (map (\<lambda>b. (if f r = b then V r else 0)
                              + sum_list (map V (filter (\<lambda>r. f r = b) df))) bs)"
    by (intro arg_cong [where f = sum_list] map_cong) auto
  also have "\<dots> = sum_list (map (\<lambda>b. if f r = b then V r else 0) bs)
                  + sum_list (map (\<lambda>b. sum_list (map V (filter (\<lambda>r. f r = b) df))) bs)"
    by (simp add: sum_list_addf)
  also have "\<dots> = (if f r \<in> set bs then V r else 0)
                  + sum_list (map V (filter (\<lambda>r. f r \<in> set bs) df))"
    using assms Cons.IH by (simp add: sum_list_single_hit)
  finally show ?case by simp
qed

lemma distinct_resample_bins: "distinct (resample_bins ts)"
proof (cases ts)
  case Nil
  then show ?thesis by (simp add: resample_bins_def)
next
  case (Cons t rest)
  have "inj_on (\<lambda>k. k * us_per_minute) A" for A
    by (rule inj_onI) (simp add: us_per_minute_def)
  then show ?thesis
    using Cons by (simp add: resample_bins_def distinct_map)
qed

lemma fold_min_int: "fold min xs (x::int) = Min (set (x # xs))"
  by (rule Min.set_eq_fold [symmetric])

lemma fold_max_int: "fold max xs (x::int) = Max (set (x # xs))"
  by (rule Max.set_eq_fold [symmetric])

lemma minute_floor_in_bins:
  assumes "t \<in> set ts"
  shows "minute_floor t \<in> set (resample_bins ts)"
proof -
  obtain t0 rest where ts: "ts = t0 # rest"
    using assms by (cases ts) auto
  have lo: "Min (set ts) \<le> t" and hi: "t \<le> Max (set ts)"
    using assms by simp_all
  have "Min (set ts) div us_per_minute \<le> t div us_per_minute"
    using lo by (simp add: us_per_minute_def zdiv_mono1)
  moreover have "t div us_per_minute \<le> Max (set ts) div us_per_minute"
    using hi by (simp add: us_per_minute_def zdiv_mono1)
  ultimately have "t div us_per_minute \<in> {Min (set ts) div us_per_minute .. Max (set ts) div us_per_minute}"
    by simp
  then show ?thesis
    unfolding ts resample_bins_def minute_floor_def
    by (simp only: list.case fold_min_int fold_max_int set_map set_upto) (rule imageI)
qed

lemma map_of_keyed:
  "map_of (map (\<lambda>k. (k, f k)) ks) m = (if m \<in> set ks then Some (f m) else None)"
  by (induction ks) auto

lemma keys_of_keyed: "fst ` set (map (\<lambda>k. (k, f k)) ks) = set ks"
  by (simp add: image_image)

lemma groupby_time_sum_keys:
  "fst ` set (groupby_time_sum index col df) = (\<lambda>r. time_of (index r)) ` set df"
  by (simp add: groupby_time_sum_def set_unique image_image)

lemma groupby_time_sum_at:
  "map_of (groupby_time_sum index col df) m
     = (if m \<in> (\<lambda>r. time_of (index r)) ` set df
        then Some (sum_list (map col (filter (\<lambda>r. time_of (index r) = m) df)))
        else None)"
  unfolding groupby_time_sum_def by (simp add: map_of_keyed set_unique)

lemma resample_volume_by_minute_cutoff_keys:
  assumes "m \<in> fst ` set (resample_volume_by_minute_cutoff sum_others df)"
  shows "df \<noteq> []"
  using assms
  by (auto simp: resample_volume_by_minute_cutoff_def groupby_time_sum_keys select_Volume_resample
      resample_bins_def)

lemma resample_volume_by_minute_cutoff_at:
  assumes "m \<in> fst ` set (resample_volume_by_minute_cutoff sum_others df)"
  shows "map_of (resample_volume_by_minute_cutoff sum_others df) m
     = Some (sum_list (map Volume (filter (\<lambda>r. time_of (minute_floor (DateTime r)) = m) df)))"
proof -
  let ?bins = "resample_bins (map DateTime df)"
  let ?S = "\<lambda>b. sum_list (map Volume (filter (\<lambda>r. minute_floor (DateTime r) = b) df))"
  let ?temp = "map (\<lambda>b. \<lparr>DateTime = b, Volume = ?S b\<rparr>) ?bins"
  let ?bs = "filter (\<lambda>b. time_of b = m) ?bins"
  have by_minute: "resample_volume_by_minute_cutoff sum_others df = groupby_time_sum DateTime Volume ?temp"
    by (simp add: resample_volume_by_minute_cutoff_def select_Volume_resample)
  have "m \<in> (\<lambda>r. time_of (DateTime r)) ` set ?temp"
    using assms unfolding by_minute groupby_time_sum_keys .
  then have at: "map_of (resample_volume_by_minute_cutoff sum_others df) m
      = Some (sum_list (map Volume (filter (\<lambda>r. time_of (DateTime r) = m) ?temp)))"
    unfolding by_minute groupby_time_sum_at by simp
  have "map Volume (filter (\<lambda>r. time_of (DateTime r) = m) ?temp) = map ?S ?bs"
    by (simp add: filter_map comp_def)
  moreover have "sum_list (map ?S ?bs)
      = sum_list (map Volume (filter (\<lambda>r. minute_floor (DateTime r) \<in> set ?bs) df))"
    by (rule sum_list_by_bins) (simp add: distinct_resample_bins)
  moreover have "filter (\<lambda>r. minute_floor (DateTime r) \<in> set ?bs) df
      = filter (\<lambda>r. time_of (minute_floor (DateTime r)) = m) df"
    by (rule filter_cong) (auto simp: minute_floor_in_bins)
  ultimately show ?thesis
    using at by simp
qed

lemma resample_volume_by_minute_cutoff_has_minute:
  assumes "r \<in> set df"
  shows "time_of (minute_floor (DateTime r)) \<in> fst ` set (resample_volume_by_minute_cutoff sum_others df)"
proof -
  have "minute_floor (DateTime r) \<in> set (resample_bins (map DateTime df))"
    using assms by (intro minute_floor_in_bins) simp
  then show ?thesis
    by (simp add: resample_volume_by_minute_cutoff_def groupby_time_sum_keys select_Volume_resample
        image_image)
qed

lemma np_true_divide_pos: "0 < n \<Longrightarrow> np_true_divide x n = Finite (x / real n)"
  by (simp add: np_true_divide_def)

lemma map_of_with_average:
  "map_of (map (\<lambda>(k, v). (k, (v, np_true_divide v n))) by_minute_df) m
     = map_option (\<lambda>v. (v, np_true_divide v n)) (map_of by_minute_df m)"
  by (induction by_minute_df) auto

lemma get_master_avg_daily_nominal_df_at:
  assumes "m \<in> fst ` set before_df \<or> m \<in> fst ` set after_df"
  shows "map_of (get_master_avg_daily_nominal_df before_df after_df nb na) m
     = Some \<lparr>Total_Volume_Before = map_of before_df m,
             Average_Volume_Before = map_option (\<lambda>v. np_true_divide v nb) (map_of before_df m),
             Total_Volume_After = map_of after_df m,
             Average_Volume_After = map_option (\<lambda>v. np_true_divide v na) (map_of after_df m)\<rparr>"
proof -
  have "m \<in> set (unique (initialize_df_grouped_by_minute
            @ map fst (map (\<lambda>(k, v). (k, (v, np_true_divide v nb))) before_df)
            @ map fst (map (\<lambda>(k, v). (k, (v, np_true_divide v na))) after_df)))"
    using assms by (auto simp: set_unique image_image case_prod_unfold)
  then show ?thesis
    unfolding get_master_avg_daily_nominal_df_def Let_def
    by (simp add: map_of_keyed map_of_with_average option.map_comp comp_def option.map_ident)
qed

lemma group_by_minute_sum_normalized_volumes_keyed:
  "group_by_minute_sum_normalized_volumes df n
     = map (\<lambda>k. (k, \<lparr>Volume_Summed = sum_list (map Volume (filter (\<lambda>r. time_of (DateTime r) = k) df)),
                      Volume_Normalized_Summed =
                        sum_list (map Volume_Normalized_Intraday (filter (\<lambda>r. time_of (DateTime r) = k) df)),
                      Daily_Avg_Volume_Normalized =
                        np_true_divide
                          (sum_list (map Volume_Normalized_Intraday (filter (\<lambda>r. time_of (DateTime r) = k) df)))
                          n\<rparr>))
         (sort (unique (map (\<lambda>r. time_of (DateTime r)) df)))"
  unfolding group_by_minute_sum_normalized_volumes_def groupby_time_sum_def Let_def
    calculate_normalized_vol_by_minute_def
  by (simp add: map2_map_map)

text \<open>
  C5. For every minute of the day present in a segment's by-minute frame (the segment then
  has at least one trading day), the \<^verbatim>\<open>Average Volume\<close> value that
  \<^verbatim>\<open>get_master_avg_daily_nominal_df\<close> produces for that minute, on the before side and on
  the after side, is the segment's total volume summed at that minute divided by the
  number of unique trading days of the segment; and for a segment with at least one
  trading day \<^verbatim>\<open>Daily Avg Volume Normalized\<close> is the summed intraday-normalised volume at
  that minute divided by the same count.
\<close>

theorem average_volume_is_total_over_trading_days:
  "(m1 \<in> fst ` set (resample_volume_by_minute_cutoff sum_others before_date_df)
     \<longrightarrow> 0 < card ((\<lambda>r. date_of (DateTime r)) ` set before_date_df)
       \<and> (\<exists>row. map_of (get_master_avg_daily_nominal_df
                    (resample_volume_by_minute_cutoff sum_others before_date_df)
                    (resample_volume_by_minute_cutoff sum_others after_date_df)
                    (length (get_unique_trading_days before_date_df))
                    (length (get_unique_trading_days after_date_df))) m1 = Some row
            \<and> Average_Volume_Before row
                = Some (Finite
                    (sum_list (map Volume
                        (filter (\<lambda>r. time_of (minute_floor (DateTime r)) = m1) before_date_df))
                     / real (card ((\<lambda>r. date_of (DateTime r)) ` set before_date_df))))))
   \<and> (m2 \<in> fst ` set (resample_volume_by_minute_cutoff sum_others after_date_df)
     \<longrightarrow> 0 < card ((\<lambda>r. date_of (DateTime r)) ` set after_date_df)
       \<and> (\<exists>row. map_of (get_master_avg_daily_nominal_df
                    (resample_volume_by_minute_cutoff sum_others before_date_df)
                    (resample_volume_by_minute_cutoff sum_others after_date_df)
                    (length (get_unique_trading_days before_date_df))
                    (length (get_unique_trading_days after_date_df))) m2 = Some row
            \<and> Average_Volume_After row
                = Some (Finite
                    (sum_list (map Volume
                        (filter (\<lambda>r. time_of (minute_floor (DateTime r)) = m2) after_date_df))
                     / real (card ((\<lambda>r. date_of (DateTime r)) ` set after_date_df))))))
   \<and> (segment \<noteq> []
       \<and> m3 \<in> fst ` set (group_by_minute_sum_normalized_volumes df_intraday_normalized
                            (length (get_unique_trading_days segment)))
     \<longrightarrow> 0 < card ((\<lambda>r. date_of (DateTime r)) ` set segment)
       \<and> (\<exists>row. map_of (group_by_minute_sum_normalized_volumes df_intraday_normalized
                            (length (get_unique_trading_days segment))) m3 = Some row
            \<and> Daily_Avg_Volume_Normalized row
                = Finite
                    (sum_list (map Volume_Normalized_Intraday
                        (filter (\<lambda>r. time_of (DateTime r) = m3) df_intraday_normalized))
                     / real (card ((\<lambda>r. date_of (DateTime r)) ` set segment)))))"
proof (intro conjI impI)
  let ?days = "\<lambda>df :: 'a bar_scheme list. card ((\<lambda>r. date_of (DateTime r)) ` set df)"
  have days_pos: "0 < ?days df" if "df \<noteq> []" for df :: "'a bar_scheme list"
    using that by (simp add: card_gt_0_iff)
  {
    assume m: "m1 \<in> fst ` set (resample_volume_by_minute_cutoff sum_others before_date_df)"
    have pos: "0 < ?days before_date_df"
      using resample_volume_by_minute_cutoff_keys [OF m] by (rule days_pos)
    then show "0 < card ((\<lambda>r. date_of (DateTime r)) ` set before_date_df)" .
    show "\<exists>row. map_of (get_master_avg_daily_nominal_df
                    (resample_volume_by_minute_cutoff sum_others before_date_df)
                    (resample_volume_by_minute_cutoff sum_others after_date_df)
                    (length (get_unique_trading_days before_date_df))
                    (length (get_unique_trading_days after_date_df))) m1 = Some row
            \<and> Average_Volume_Before row
                = Some (Finite
                    (sum_list (map Volume
                        (filter (\<lambda>r. time_of (minute_floor (DateTime r)) = m1) before_date_df))
                     / real (card ((\<lambda>r. date_of (DateTime r)) ` set before_date_df))))"
      using pos m
      by (simp add: get_master_avg_daily_nominal_df_at resample_volume_by_minute_cutoff_at
          num_unique_trading_days np_true_divide_pos)
  }
  {
    assume m: "m2 \<in> fst ` set (resample_volume_by_minute_cutoff sum_others after_date_df)"
    have pos: "0 < ?days after_date_df"
      using resample_volume_by_minute_cutoff_keys [OF m] by (rule days_pos)
    then show "0 < card ((\<lambda>r. date_of (DateTime r)) ` set after_date_df)" .
    show "\<exists>row. map_of (get_master_avg_daily_nominal_df
                    (resample_volume_by_minute_cutoff sum_others before_date_df)
                    (resample_volume_by_minute_cutoff sum_others after_date_df)
                    (length (get_unique_trading_days before_date_df))
                    (length (get_unique_trading_days after_date_df))) m2 = Some row
            \<and> Average_Volume_After row
                = Some (Finite
                    (sum_list (map Volume
                        (filter (\<lambda>r. time_of (minute_floor (DateTime r)) = m2) after_date_df))
                     / real (card ((\<lambda>r. date_of (DateTime r)) ` set after_date_df))))"
      using pos m
      by (simp add: get_master_avg_daily_nominal_df_at resample_volume_by_minute_cutoff_at
          num_unique_trading_days np_true_divide_pos)
  }
  {
    assume a: "segment \<noteq> []
       \<and> m3 \<in> fst ` set (group_by_minute_sum_normalized_volumes df_intraday_normalized
                            (length (get_unique_trading_days segment)))"
    have pos: "0 < card ((\<lambda>r. date_of (DateTime r)) ` set segment)"
      using a by (simp add: card_gt_0_iff)
    then show "0 < card ((\<lambda>r. date_of (DateTime r)) ` set segment)" .
    have "m3 \<in> set (sort (unique (map (\<lambda>r. time_of (DateTime r)) df_intraday_normalized)))"
      using a unfolding group_by_minute_sum_normalized_volumes_keyed keys_of_keyed
      by (rule conjunct2)
    then show "\<exists>row. map_of (group_by_minute_sum_normalized_volumes df_intraday_normalized
                            (length (get_unique_trading_days segment))) m3 = Some row
            \<and> Daily_Avg_Volume_Normalized row
                = Finite
                    (sum_list (map Volume_Normalized_Intraday
                        (filter (\<lambda>r. time_of (DateTime r) = m3) df_intraday_normalized))
                     / real (card ((\<lambda>r. date_of (DateTime r)) ` set segment)))"
      using pos unfolding group_by_minute_sum_normalized_volumes_keyed
      by (simp add: map_of_keyed num_unique_trading_days np_true_divide_pos del: set_sort set_map)
  }
qed

theorem average_volume_is_total_over_trading_days_witness:
  "570 * us_per_minute
      \<in> fst ` set (resample_volume_by_minute_cutoff (\<lambda>_. ()) example_before_date_df)
   \<and> 570 * us_per_minute
      \<in> fst ` set (resample_volume_by_minute_cutoff (\<lambda>_. ()) example_after_date_df)
   \<and> example_before_date_df \<noteq> []
   \<and> 570 * us_per_minute
      \<in> fst ` set (group_by_minute_sum_normalized_volumes example_intraday_normalized
                     (length (get_unique_trading_days example_before_date_df)))
   \<and> (\<exists>row. map_of (get_master_avg_daily_nominal_df
                (resample_volume_by_minute_cutoff (\<lambda>_. ()) example_before_date_df)
                (resample_volume_by_minute_cutoff (\<lambda>_. ()) example_after_date_df)
                (length (get_unique_trading_days example_before_date_df))
                (length (get_unique_trading_days example_after_date_df)))
              (570 * us_per_minute) = Some row
          \<and> Average_Volume_Before row = Some (Finite 9)
          \<and> Average_Volume_After row = Some (Finite 4))
   \<and> (\<exists>row. map_of (group_by_minute_sum_normalized_volumes example_intraday_normalized
                        (length (get_unique_trading_days example_before_date_df)))
              (570 * us_per_minute) = Some row
          \<and> Daily_Avg_Volume_Normalized row = Finite (1 / 2))"
proof -
  let ?m = "570 * us_per_minute"
  have t: "time_of (minute_floor (735780 * us_per_day + 570 * us_per_minute)) = ?m"
      "time_of (minute_floor (735781 * us_per_day + 570 * us_per_minute)) = ?m"
      "time_of (minute_floor (735782 * us_per_day + 570 * us_per_minute)) = ?m"
      "time_of (minute_floor (735781 * us_per_day + 571 * us_per_minute)) \<noteq> ?m"
      "time_of (735780 * us_per_day + 570 * us_per_minute) = ?m"
      "time_of (735781 * us_per_day + 570 * us_per_minute) = ?m"
      "time_of (735781 * us_per_day + 571 * us_per_minute) \<noteq> ?m"
    by (simp_all add: time_of_def minute_floor_def us_per_day_def us_per_minute_def)
  have d: "date_of (735780 * us_per_day + 570 * us_per_minute) = 735780"
      "date_of (735781 * us_per_day + 570 * us_per_minute) = 735781"
      "date_of (735781 * us_per_day + 571 * us_per_minute) = 735781"
      "date_of (735782 * us_per_day + 570 * us_per_minute) = 735782"
    by (simp_all add: date_of_def us_per_day_def us_per_minute_def)
  have h1: "?m \<in> fst ` set (resample_volume_by_minute_cutoff (\<lambda>_. ()) example_before_date_df)"
    using resample_volume_by_minute_cutoff_has_minute
      [of "\<lparr>DateTime = 735780 * us_per_day + 570 * us_per_minute, Volume = 12\<rparr>"
          example_before_date_df "\<lambda>_. ()"]
    by (simp add: example_before_date_df_def t)
  have h2: "?m \<in> fst ` set (resample_volume_by_minute_cutoff (\<lambda>_. ()) example_after_date_df)"
    using resample_volume_by_minute_cutoff_has_minute
      [of "\<lparr>DateTime = 735782 * us_per_day + 570 * us_per_minute, Volume = 4\<rparr>"
          example_after_date_df "\<lambda>_. ()"]
    by (simp add: example_after_date_df_def t)
  have h3: "example_before_date_df \<noteq> []"
    by (simp add: example_before_date_df_def)
  have h4: "?m \<in> fst ` set (group_by_minute_sum_normalized_volumes example_intraday_normalized
                     (length (get_unique_trading_days example_before_date_df)))"
    unfolding group_by_minute_sum_normalized_volumes_keyed keys_of_keyed
    by (simp add: set_unique example_intraday_normalized_def t)
  have days_before: "card ((\<lambda>r. date_of (DateTime r)) ` set example_before_date_df) = 2"
    by (simp add: example_before_date_df_def d)
  have days_after: "card ((\<lambda>r. date_of (DateTime r)) ` set example_after_date_df) = 1"
    by (simp add: example_after_date_df_def d)
  have total_before: "sum_list (map Volume
        (filter (\<lambda>r. time_of (minute_floor (DateTime r)) = ?m) example_before_date_df)) = 18"
    by (simp add: example_before_date_df_def t)
  have total_after: "sum_list (map Volume
        (filter (\<lambda>r. time_of (minute_floor (DateTime r)) = ?m) example_after_date_df)) = 4"
    by (simp add: example_after_date_df_def t)
  have total_norm: "sum_list (map Volume_Normalized_Intraday
        (filter (\<lambda>r. time_of (DateTime r) = ?m) example_intraday_normalized)) = 1"
    by (simp add: example_intraday_normalized_def t)
  show ?thesis
    using h1 h2 h3 h4
      average_volume_is_total_over_trading_days
        [of ?m "\<lambda>_. ()" example_before_date_df example_after_date_df ?m
            example_before_date_df ?m example_intraday_normalized]
    unfolding days_before days_after total_before total_after total_norm
    by auto
qed

subsection \<open>The header script entry by entry\<close>

lemma fold_gsed_i:
  "distinct ps \<Longrightarrow>
   fold gsed_i ps fs
     = map (\<lambda>(p, e). if p \<in> set ps
                      then (case e of File content \<Rightarrow> (p, File (sed_insert_header content))
                                    | Directory \<Rightarrow> (p, e))
                      else (p, e)) fs"
proof (induction ps arbitrary: fs)
  case Nil
  then show ?case by (simp add: case_prod_unfold)
next
  case (Cons q ps)
  then have q: "q \<notin> set ps" and d: "distinct ps"
    by simp_all
  show ?case
    unfolding fold_simps Cons.IH [OF d]
    using q by (auto simp: gsed_i_def split: entry.splits)
qed

lemma distinct_find_name_csv: "distinct (map fst fs) \<Longrightarrow> distinct (find_name_csv fs)"
  unfolding find_name_csv_def by (rule distinct_map_filter)

lemma set_find_name_csv:
  "set (find_name_csv fs) = {p \<in> fst ` set fs. p \<noteq> [] \<and> ends_with ''.csv'' (last p)}"
  by (auto simp: find_name_csv_def image_iff)

lemma add_header_entries:
  assumes "distinct (map fst fs)"
  shows "add_header fs
     = map (\<lambda>(p, e). if p \<noteq> [] \<and> ends_with ''.csv'' (last p)
                      then (case e of File content \<Rightarrow> (p, File (sed_insert_header content))
                                    | Directory \<Rightarrow> (p, e))
                      else (p, e)) fs"
  unfolding add_header_def fold_gsed_i [OF distinct_find_name_csv [OF assms]]
  by (rule map_cong) (force simp: set_find_name_csv)+

lemma map_of_map_entries:
  "map_of (map (\<lambda>(p, e). (p, g p e)) fs) q = map_option (g q) (map_of fs q)"
  by (induction fs) auto

lemma add_header_lookup:
  assumes "distinct (map fst fs)"
  shows "map_of (add_header fs) q
     = map_option (\<lambda>e. if q \<noteq> [] \<and> ends_with ''.csv'' (last q)
                        then (case e of File content \<Rightarrow> File (sed_insert_header content)
                                      | Directory \<Rightarrow> e)
                        else e) (map_of fs q)"
proof -
  have "add_header fs
     = map (\<lambda>(p, e). (p, if p \<noteq> [] \<and> ends_with ''.csv'' (last p)
                      then (case e of File content \<Rightarrow> File (sed_insert_header content)
                                    | Directory \<Rightarrow> e)
                      else e)) fs"
    unfolding add_header_entries [OF assms]
    by (rule map_cong) (auto split: entry.splits)
  then show ?thesis
    by (simp only: map_of_map_entries)
qed

lemma add_header_paths:
  assumes "distinct (map fst fs)"
  shows "map fst (add_header fs) = map fst fs"
  unfolding add_header_entries [OF assms]
  by (induction fs) (auto split: entry.splits)

subsection \<open>The rename script entry by entry\<close>

lemma ends_with_append: "ends_with sfx (s @ sfx)"
  by (simp add: ends_with_def)

lemma ends_with_split: "ends_with sfx s \<Longrightarrow> s = take (length s - length sfx) s @ sfx"
  unfolding ends_with_def by (metis append_take_drop_id)

lemma csv_name_of_txt: "csv_name (stem @ ''.txt'') = stem @ ''.csv''"
  by (simp add: csv_name_def strip_suffix_def ends_with_def)

lemma csv_name_not_txt: "\<not> ends_with ''.txt'' (csv_name n)"
  by (simp add: csv_name_def ends_with_def)

lemma csv_name_inj:
  assumes "ends_with ''.txt'' n" and "ends_with ''.txt'' m" and "csv_name n = csv_name m"
  shows "n = m"
proof -
  obtain a where n: "n = a @ ''.txt''"
    using ends_with_split [OF assms(1)] by blast
  obtain b where m: "m = b @ ''.txt''"
    using ends_with_split [OF assms(2)] by blast
  show ?thesis
    using assms(3) unfolding n m csv_name_of_txt by simp
qed

lemma glob_txt_Nil: "glob_txt [] = []"
  by (simp add: glob_txt_def)

lemma glob_txt_Cons:
  "glob_txt ((p, e) # fs)
      = (case p of [name] \<Rightarrow> (if \<not> hidden name \<and> ends_with ''.txt'' name then [name] else [])
                 | _ \<Rightarrow> []) @ glob_txt fs"
  by (simp add: glob_txt_def)

lemma path_shapes:
  obtains "p = []" | name where "p = [name]" | a b rest where "p = a # b # rest"
  by (cases p; cases "tl p") auto

lemma set_glob_txt:
  "set (glob_txt fs) = {n. [n] \<in> fst ` set fs \<and> \<not> hidden n \<and> ends_with ''.txt'' n}"
proof (induction fs)
  case Nil
  show ?case by (simp add: glob_txt_Nil)
next
  case (Cons x fs)
  obtain p e where x: "x = (p, e)" by (cases x)
  show ?case
    by (cases p rule: path_shapes) (auto simp: x glob_txt_Cons Cons.IH)
qed

lemma distinct_glob_txt: "distinct (map fst fs) \<Longrightarrow> distinct (glob_txt fs)"
proof (induction fs)
  case Nil
  show ?case by (simp add: glob_txt_Nil)
next
  case (Cons x fs)
  obtain p e where x: "x = (p, e)" by (cases x)
  have "p \<notin> fst ` set fs" and "distinct (glob_txt fs)"
    using Cons x by simp_all
  then show ?case
    by (cases p rule: path_shapes) (auto simp: x glob_txt_Cons set_glob_txt)
qed

lemma mv_fresh:
  assumes src: "[src] \<in> fst ` set fs"
      and fresh: "\<forall>p\<in>fst ` set fs. p \<noteq> [] \<longrightarrow> hd p \<noteq> dst"
  shows "mv src dst fs = rename_prefix src [dst] fs"
proof -
  obtain s where s: "map_of fs [src] = Some s"
    using src by (metis map_of_eq_None_iff not_Some_eq)
  have "[dst] \<notin> fst ` set fs"
    using fresh by force
  then have d: "map_of fs [dst] = None"
    by (simp add: map_of_eq_None_iff)
  show ?thesis
    by (simp add: mv_def mv_onto_def s d)
qed

lemma paths_rename_prefix:
  "fst ` set (rename_prefix src dst fs)
     = (\<lambda>p. case p of [] \<Rightarrow> [] | c # rest \<Rightarrow> if c = src then dst @ rest else p) ` fst ` set fs"
  unfolding rename_prefix_def
  by (force simp: image_iff split: list.splits)

lemma fold_mv_command:
  assumes "distinct ns"
      and "\<forall>n\<in>set ns. ends_with ''.txt'' n"
      and "\<forall>n\<in>set ns. [n] \<in> fst ` set fs"
      and "\<forall>n\<in>set ns. \<forall>p\<in>fst ` set fs. p \<noteq> [] \<longrightarrow> hd p \<noteq> csv_name n"
  shows "fold (\<lambda>file. mv_command file (csv_name file)) ns fs
       = map (\<lambda>(p, e). (case p of
                           [] \<Rightarrow> p
                         | c # rest \<Rightarrow> if c \<in> set ns \<and> \<not> is_option c
                                       then csv_name c # rest else p, e)) fs"
  using assms
proof (induction ns arbitrary: fs)
  case Nil
  show ?case
    by (simp, intro map_idI [symmetric]) (auto split: list.splits)
next
  case (Cons n ns)
  have n_new: "n \<notin> set ns" and d: "distinct ns"
    using Cons.prems(1) by simp_all
  have all_txt: "\<forall>m\<in>set ns. ends_with ''.txt'' m" and n_txt: "ends_with ''.txt'' n"
    using Cons.prems(2) by simp_all
  show ?case
  proof (cases "is_option n")
    case True
    have "fold (\<lambda>file. mv_command file (csv_name file)) (n # ns) fs
        = fold (\<lambda>file. mv_command file (csv_name file)) ns fs"
      using True by (simp add: mv_command_def)
    also have "\<dots> = map (\<lambda>(p, e). (case p of
                           [] \<Rightarrow> p
                         | c # rest \<Rightarrow> if c \<in> set ns \<and> \<not> is_option c
                                       then csv_name c # rest else p, e)) fs"
      using Cons.prems by (intro Cons.IH d all_txt) simp_all
    also have "\<dots> = map (\<lambda>(p, e). (case p of
                           [] \<Rightarrow> p
                         | c # rest \<Rightarrow> if c \<in> set (n # ns) \<and> \<not> is_option c
                                       then csv_name c # rest else p, e)) fs"
      using True by (intro map_cong) (auto split: list.splits)
    finally show ?thesis .
  next
    case False
    let ?fs = "rename_prefix n [csv_name n] fs"
    have step: "mv_command n (csv_name n) fs = ?fs"
      using False Cons.prems(3,4) by (simp add: mv_command_def mv_fresh)
    have src: "\<forall>m\<in>set ns. [m] \<in> fst ` set ?fs"
    proof
      fix m assume m: "m \<in> set ns"
      then have "[m] \<in> fst ` set fs" and "m \<noteq> n"
        using Cons.prems(3) n_new by auto
      then show "[m] \<in> fst ` set ?fs"
        unfolding paths_rename_prefix by (force simp: image_iff)
    qed
    have fresh: "\<forall>m\<in>set ns. \<forall>p\<in>fst ` set ?fs. p \<noteq> [] \<longrightarrow> hd p \<noteq> csv_name m"
    proof (intro ballI impI)
      fix m p assume m: "m \<in> set ns" and p: "p \<in> fst ` set ?fs" and ne: "p \<noteq> []"
      obtain q where q: "q \<in> fst ` set fs"
          and pq: "p = (case q of [] \<Rightarrow> [] | c # rest \<Rightarrow> if c = n then [csv_name n] @ rest else q)"
        using p unfolding paths_rename_prefix by auto
      have "csv_name n \<noteq> csv_name m"
        using csv_name_inj [of n m] n_txt all_txt m n_new by auto
      moreover have "q \<noteq> [] \<longrightarrow> hd q \<noteq> csv_name m"
        using Cons.prems(4) m q by fastforce
      ultimately show "hd p \<noteq> csv_name m"
        using ne unfolding pq by (auto split: list.splits if_splits)
    qed
    have "fold (\<lambda>file. mv_command file (csv_name file)) (n # ns) fs
        = fold (\<lambda>file. mv_command file (csv_name file)) ns ?fs"
      by (simp add: step)
    also have "\<dots> = map (\<lambda>(p, e). (case p of
                           [] \<Rightarrow> p
                         | c # rest \<Rightarrow> if c \<in> set ns \<and> \<not> is_option c
                                       then csv_name c # rest else p, e)) ?fs"
      by (intro Cons.IH d all_txt src fresh)
    also have "\<dots> = map (\<lambda>(p, e). (case p of
                           [] \<Rightarrow> p
                         | c # rest \<Rightarrow> if c \<in> set (n # ns) \<and> \<not> is_option c
                                       then csv_name c # rest else p, e)) fs"
    proof -
      have "csv_name n \<notin> set ns"
        using all_txt csv_name_not_txt [of n] by auto
      then show ?thesis
        unfolding rename_prefix_def map_map
        using False n_new by (intro map_cong) (auto split: list.splits)
    qed
    finally show ?thesis .
  qed
qed

lemma rename_txt_to_csv_entries:
  assumes "distinct (map fst fs)"
      and "glob_txt fs \<noteq> []"
      and "\<forall>n\<in>set (glob_txt fs). \<forall>p\<in>fst ` set fs. p \<noteq> [] \<longrightarrow> hd p \<noteq> csv_name n"
  shows "rename_txt_to_csv fs
       = Inr (map (\<lambda>(p, e). (case p of
                           [] \<Rightarrow> p
                         | c # rest \<Rightarrow> if c \<in> set (glob_txt fs) \<and> \<not> is_option c
                                       then csv_name c # rest else p, e)) fs)"
proof -
  have "fold (\<lambda>file. mv_command file (csv_name file)) (glob_txt fs) fs
       = map (\<lambda>(p, e). (case p of
                           [] \<Rightarrow> p
                         | c # rest \<Rightarrow> if c \<in> set (glob_txt fs) \<and> \<not> is_option c
                                       then csv_name c # rest else p, e)) fs"
    using assms(3) distinct_glob_txt [OF assms(1)]
    by (intro fold_mv_command) (simp_all add: set_glob_txt)
  then show ?thesis
    using assms(2) by (cases "glob_txt fs") (simp_all add: rename_txt_to_csv_def)
qed

lemma new_names_free_iff:
  "new_names_free fs
     \<longleftrightarrow> (\<forall>n\<in>set (glob_txt fs). \<forall>p\<in>fst ` set fs. p \<noteq> [] \<longrightarrow> hd p \<noteq> csv_name n)"
  unfolding new_names_free_def list_all_iff by fastforce

subsection \<open>What the scripts leave unchanged\<close>

text \<open>
  For a directory whose entries have pairwise different paths: the rename script renames exactly the entries of the current directory whose names end
  in \<^verbatim>\<open>.txt\<close> and begin with neither a dot nor a hyphen, each to its name with
  \<^verbatim>\<open>.csv\<close> for \<^verbatim>\<open>.txt\<close> (what lies below a renamed directory moves with it), and,
  when the new names are free, leaves every other entry and all contents as they were.
  \<^verbatim>\<open>add_header.sh\<close>, for names without whitespace, creates and removes nothing, leaves
  unchanged every entry whose name does not end in \<^verbatim>\<open>.csv\<close>, at any depth, and puts the
  header line in front of every non-empty regular file of the current directory whose
  name ends in \<^verbatim>\<open>.csv\<close>.
\<close>

lemma scripts_frame:
  assumes "distinct (map fst fs)"
  shows "(glob_txt fs \<noteq> [] \<and> new_names_free fs
          \<longrightarrow> rename_txt_to_csv fs
              = Inr (map (\<lambda>(p, e). (case p of
                                      [] \<Rightarrow> p
                                    | c # rest \<Rightarrow>
                                        if [c] \<in> fst ` set fs \<and> ends_with ''.txt'' c
                                            \<and> \<not> hidden c \<and> \<not> is_option c
                                        then csv_name c # rest else p, e)) fs))
       \<and> (names_without_whitespace fs
          \<longrightarrow> map fst (add_header fs) = map fst fs
            \<and> (\<not> (q \<noteq> [] \<and> ends_with ''.csv'' (last q))
                 \<longrightarrow> map_of (add_header fs) q = map_of fs q)
            \<and> (map_of fs [name] = Some (File content) \<and> ends_with ''.csv'' name \<and> content \<noteq> []
                 \<longrightarrow> map_of (add_header fs) [name]
                     = Some (File (csv_header @ [CHR 0x0A] @ content))))"
proof (intro conjI impI)
  assume a: "glob_txt fs \<noteq> [] \<and> new_names_free fs"
  have "rename_txt_to_csv fs
       = Inr (map (\<lambda>(p, e). (case p of
                           [] \<Rightarrow> p
                         | c # rest \<Rightarrow> if c \<in> set (glob_txt fs) \<and> \<not> is_option c
                                       then csv_name c # rest else p, e)) fs)"
    using a assms by (intro rename_txt_to_csv_entries) (simp_all add: new_names_free_iff)
  moreover have "\<And>c. c \<in> set (glob_txt fs)
      \<longleftrightarrow> [c] \<in> fst ` set fs \<and> ends_with ''.txt'' c \<and> \<not> hidden c"
    by (auto simp: set_glob_txt)
  ultimately show "rename_txt_to_csv fs
              = Inr (map (\<lambda>(p, e). (case p of
                                      [] \<Rightarrow> p
                                    | c # rest \<Rightarrow>
                                        if [c] \<in> fst ` set fs \<and> ends_with ''.txt'' c
                                            \<and> \<not> hidden c \<and> \<not> is_option c
                                        then csv_name c # rest else p, e)) fs)"
    by (simp only: conj_assoc)
next
  show "map fst (add_header fs) = map fst fs"
    using assms by (rule add_header_paths)
next
  assume "\<not> (q \<noteq> [] \<and> ends_with ''.csv'' (last q))"
  then have "(\<lambda>e. if q \<noteq> [] \<and> ends_with ''.csv'' (last q)
                  then (case e of File content \<Rightarrow> File (sed_insert_header content)
                                | Directory \<Rightarrow> e)
                  else e) = (\<lambda>e. e)"
    by auto
  then show "map_of (add_header fs) q = map_of fs q"
    by (simp only: add_header_lookup [OF assms] option.map_ident)
next
  assume "map_of fs [name] = Some (File content) \<and> ends_with ''.csv'' name \<and> content \<noteq> []"
  then show "map_of (add_header fs) [name] = Some (File (csv_header @ [CHR 0x0A] @ content))"
    by (simp add: add_header_lookup [OF assms] sed_insert_header_def)
qed

lemma scripts_frame_example:
  "rename_txt_to_csv example_directory
     = Inr [([''a.csv''], File ''1,2''),
            ([''.notes.txt''], File ''n''),
            ([''b.csv''], File ''3,4''),
            ([''sub''], Directory),
            ([''sub'', ''c.txt''], File ''5'')]
   \<and> add_header example_directory
     = [([''a.txt''], File ''1,2''),
        ([''.notes.txt''], File ''n''),
        ([''b.csv''], File ''DateTime,Open,High,Low,Close,Volume\<newline>3,4''),
        ([''sub''], Directory),
        ([''sub'', ''c.txt''], File ''5'')]"
  by (simp add: example_directory_def rename_txt_to_csv_def glob_txt_def hidden_def ends_with_def
      mv_command_def is_option_def mv_def mv_onto_def rename_prefix_def csv_name_def
      strip_suffix_def add_header_def find_name_csv_def gsed_i_def sed_insert_header_def
      csv_header_def)

text \<open>
  The pattern \<^verbatim>\<open>*.txt\<close> does not match a name that begins with a dot: the file
  \<^verbatim>\<open>.notes.txt\<close> of the current directory is not renamed.
\<close>

lemma rename_skips_hidden_txt:
  "rename_txt_to_csv [([''.notes.txt''], File ''n''), ([''a.txt''], File ''1,2'')]
     = Inr [([''.notes.txt''], File ''n''), ([''a.csv''], File ''1,2'')]"
  by (simp add: rename_txt_to_csv_def glob_txt_def hidden_def ends_with_def mv_command_def
      is_option_def mv_def mv_onto_def rename_prefix_def csv_name_def strip_suffix_def)

subsection \<open>C8\<close>

text \<open>
  C8. \<^verbatim>\<open>add_header.sh\<close> should modify the files of the current directory ending in
  \<^verbatim>\<open>.csv\<close> and leave every file in a subdirectory unchanged, as its comment
  \<^verbatim>\<open>Add a csv header to files in cwd\<close> says. But \<^verbatim>\<open>find .\<close> descends: in a current
  directory that holds the subdirectory \<^verbatim>\<open>sub\<close> with the file \<^verbatim>\<open>s.csv\<close>, that file
  gets the header.
\<close>

theorem add_header_descends_into_subdirectories:
  "add_header [([''sub''], Directory), ([''sub'', ''s.csv''], File ''q'')]
     = [([''sub''], Directory),
        ([''sub'', ''s.csv''], File ''DateTime,Open,High,Low,Close,Volume\<newline>q'')]"
  by (simp add: add_header_def find_name_csv_def gsed_i_def ends_with_def
      sed_insert_header_def csv_header_def)

subsection \<open>C9\<close>

text \<open>
  The rename maps a name ending in \<^verbatim>\<open>.txt\<close> to the same name ending in \<^verbatim>\<open>.csv\<close>
  (\<open>csv_name_of_txt\<close>), and a non-empty file ending in \<^verbatim>\<open>.csv\<close> becomes the header
  line followed by its previous content:
\<close>

lemma add_header_inserts_header:
  assumes "distinct (map fst fs)" and "map_of fs p = Some (File content)"
      and "p \<noteq> []" and "ends_with ''.csv'' (last p)" and "content \<noteq> []"
  shows "map_of (add_header fs) p = Some (File (csv_header @ [CHR 0x0A] @ content))"
  using assms(2-5) by (simp add: add_header_lookup [OF assms(1)] sed_insert_header_def)

text \<open>
  C9. Every \<^verbatim>\<open>.csv\<close> file the header script processes should become the header line
  followed by its previous content. An empty file has no first line for the substitution
  \<^verbatim>\<open>1s/^/.../\<close> to act on: it is processed and stays empty, without a header.
\<close>

theorem add_header_leaves_empty_file_empty:
  "add_header [([''a.csv''], File [])] = [([''a.csv''], File [])]"
  by (simp add: add_header_def find_name_csv_def gsed_i_def ends_with_def sed_insert_header_def)

end
